theory Spec2Isabelle
  imports Main "HOL-Library.Multiset"
begin

section \<open>Track records and edit entries\<close>

text \<open>
  The tag editor (\<^verbatim>\<open>src/dialogs/edittagdialog.cpp\<close>) keeps a list \<^verbatim>\<open>data_\<close> of
  entries, each pairing the \<^verbatim>\<open>Song\<close> as loaded (\<^verbatim>\<open>original_\<close>) with the working
  copy (\<^verbatim>\<open>current_\<close>). Member names drop the trailing underscore of the C++
  names, and \<^verbatim>\<open>Song::id()\<close> is the field \<open>song_id\<close>.

  A \<^verbatim>\<open>QUrl\<close> is either a \<^verbatim>\<open>file:\<close> URL, of which \<^verbatim>\<open>toLocalFile()\<close> is the path, or
  any other URL, of which \<^verbatim>\<open>toLocalFile()\<close> is the empty string.
\<close>

datatype QUrl = FileUrl string | OtherUrl string

fun toLocalFile :: "QUrl \<Rightarrow> string" where
  "toLocalFile (FileUrl path) = path"
| "toLocalFile (OtherUrl _) = []"

text \<open>
  The \<^verbatim>\<open>Song\<close> class is used through its accessors only. Each accessor that a
  setter writes is a field; the setters called by the dialog write their own
  field and nothing else.
\<close>

record Song =
  title :: string
  artist :: string
  album :: string
  albumartist :: string
  composer :: string
  performer :: string
  grouping :: string
  genre :: string
  comment :: string
  lyrics :: string
  track :: int
  disc :: int
  year :: int
  compilation :: bool
  art_manual :: QUrl
  url :: QUrl
  song_id :: int
  is_valid :: bool
  is_collection_song :: bool

record Data =
  original :: Song
  current :: Song

text \<open>
  A \<^verbatim>\<open>QVariant\<close> as the dialog meets it: invalid, or holding a string, an int or
  a bool. The conversions \<^verbatim>\<open>toString\<close>, \<^verbatim>\<open>toInt\<close> and \<^verbatim>\<open>toBool\<close> return the held
  value when the type matches; what Qt converts a value of another type to is
  a parameter \<open>qt\<close> of the model.
\<close>

datatype QVariant = Invalid | VString string | VInt int | VBool bool

record conversions =
  string_of :: "QVariant \<Rightarrow> string"
  int_of :: "QVariant \<Rightarrow> int"
  bool_of :: "QVariant \<Rightarrow> bool"

definition isValid :: "QVariant \<Rightarrow> bool" where
  "isValid v = (v \<noteq> Invalid)"

definition toString :: "conversions \<Rightarrow> QVariant \<Rightarrow> string" where
  "toString qt v = (case v of VString s \<Rightarrow> s | _ \<Rightarrow> string_of qt v)"

definition toInt :: "conversions \<Rightarrow> QVariant \<Rightarrow> int" where
  "toInt qt v = (case v of VInt n \<Rightarrow> n | _ \<Rightarrow> int_of qt v)"

definition toBool :: "conversions \<Rightarrow> QVariant \<Rightarrow> bool" where
  "toBool qt v = (case v of VBool b \<Rightarrow> b | _ \<Rightarrow> bool_of qt v)"

text \<open>
  Everything a call does besides returning is listed, in order, in the effects
  it returns: log lines (\<^verbatim>\<open>qLog(...) << a << b\<close> is \<open>Log severity [a, b]\<close>),
  changes to the widgets of a field, calls to the tag reader and the
  collection backend, and signals.
\<close>

datatype severity = Warning | Error | Debug

datatype effect =
    Log severity "string list"
  | SetHint string
  | SetEditorValue string QVariant
  | SetBold string bool
  | UpdateSummaryTab Song
  | SaveFile string Song
  | EmitError string
  | AddOrUpdateSongs "Song list"
  | DialogAccept

subsection \<open>Field access by string key\<close>

definition field_ids :: "string list" where
  "field_ids = [''title'', ''artist'', ''album'', ''albumartist'', ''composer'',
     ''performer'', ''grouping'', ''genre'', ''comment'', ''lyrics'', ''track'', ''disc'',
     ''year'', ''compilation'']"

text \<open>\<^verbatim>\<open>EditTagDialog::Data::value\<close>.\<close>

definition "value" :: "Song \<Rightarrow> string \<Rightarrow> QVariant \<times> effect list" where
  "value song fid =
    (if fid = ''title'' then (VString (title song), [])
     else if fid = ''artist'' then (VString (artist song), [])
     else if fid = ''album'' then (VString (album song), [])
     else if fid = ''albumartist'' then (VString (albumartist song), [])
     else if fid = ''composer'' then (VString (composer song), [])
     else if fid = ''performer'' then (VString (performer song), [])
     else if fid = ''grouping'' then (VString (grouping song), [])
     else if fid = ''genre'' then (VString (genre song), [])
     else if fid = ''comment'' then (VString (comment song), [])
     else if fid = ''lyrics'' then (VString (lyrics song), [])
     else if fid = ''track'' then (VInt (track song), [])
     else if fid = ''disc'' then (VInt (disc song), [])
     else if fid = ''year'' then (VInt (year song), [])
     else if fid = ''compilation'' then (VBool (compilation song), [])
     else (Invalid, [Log Warning [''Unknown ID'', fid]]))"

text \<open>
  Modelled from the spec: \<^verbatim>\<open>original_value\<close> and \<^verbatim>\<open>current_value\<close> are declared in
  the dialog's header, which is not among the sources; they read a field of
  the \<open>original\<close>, respectively the \<open>current\<close>, record through \<open>value\<close>.
\<close>

definition original_value :: "Data \<Rightarrow> string \<Rightarrow> QVariant \<times> effect list" where
  "original_value d fid = value (original d) fid"

definition current_value :: "Data \<Rightarrow> string \<Rightarrow> QVariant \<times> effect list" where
  "current_value d fid = value (current d) fid"

text \<open>\<^verbatim>\<open>EditTagDialog::Data::set_value\<close>.\<close>

definition set_value :: "conversions \<Rightarrow> Data \<Rightarrow> string \<Rightarrow> QVariant \<Rightarrow> Data \<times> effect list" where
  "set_value qt d fid v =
    (if fid = ''title'' then (d\<lparr>current := (current d)\<lparr>title := toString qt v\<rparr>\<rparr>, [])
     else if fid = ''artist'' then (d\<lparr>current := (current d)\<lparr>artist := toString qt v\<rparr>\<rparr>, [])
     else if fid = ''album'' then (d\<lparr>current := (current d)\<lparr>album := toString qt v\<rparr>\<rparr>, [])
     else if fid = ''albumartist'' then
       (d\<lparr>current := (current d)\<lparr>albumartist := toString qt v\<rparr>\<rparr>, [])
     else if fid = ''composer'' then (d\<lparr>current := (current d)\<lparr>composer := toString qt v\<rparr>\<rparr>, [])
     else if fid = ''performer'' then
       (d\<lparr>current := (current d)\<lparr>performer := toString qt v\<rparr>\<rparr>, [])
     else if fid = ''grouping'' then (d\<lparr>current := (current d)\<lparr>grouping := toString qt v\<rparr>\<rparr>, [])
     else if fid = ''genre'' then (d\<lparr>current := (current d)\<lparr>genre := toString qt v\<rparr>\<rparr>, [])
     else if fid = ''comment'' then (d\<lparr>current := (current d)\<lparr>comment := toString qt v\<rparr>\<rparr>, [])
     else if fid = ''lyrics'' then (d\<lparr>current := (current d)\<lparr>lyrics := toString qt v\<rparr>\<rparr>, [])
     else if fid = ''track'' then (d\<lparr>current := (current d)\<lparr>track := toInt qt v\<rparr>\<rparr>, [])
     else if fid = ''disc'' then (d\<lparr>current := (current d)\<lparr>disc := toInt qt v\<rparr>\<rparr>, [])
     else if fid = ''year'' then (d\<lparr>current := (current d)\<lparr>year := toInt qt v\<rparr>\<rparr>, [])
     else if fid = ''compilation'' then
       (d\<lparr>current := (current d)\<lparr>compilation := toBool qt v\<rparr>\<rparr>, [])
     else (d, [Log Warning [''Unknown ID'', fid]]))"

subsection \<open>Queries over a selection\<close>

text \<open>
  A selection is the list of selected rows, in the order of
  \<^verbatim>\<open>selectedIndexes()\<close>. \<^verbatim>\<open>QList::operator[]\<close> requires a valid index and
  \<^verbatim>\<open>first()\<close> a non-empty list; the rows of the list widget are the indices of
  \<^verbatim>\<open>data_\<close>, which \<open>rows_ok\<close> states.
\<close>

definition rows_ok :: "Data list \<Rightarrow> nat list \<Rightarrow> bool" where
  "rows_ok data sel = list_all (\<lambda>i. i < length data) sel"

text \<open>
  \<^verbatim>\<open>EditTagDialog::DoesValueVary\<close>: the loop over \<^verbatim>\<open>sel[1..]\<close>, then the function.
  The two sides of \<^verbatim>\<open>!=\<close> come from \<open>value\<close> with the same key and hold the same
  type, so the comparison of \<^verbatim>\<open>QVariant\<close> is the comparison of the held values.
\<close>

fun DoesValueVary_loop ::
  "Data list \<Rightarrow> QVariant \<Rightarrow> string \<Rightarrow> nat list \<Rightarrow> bool \<times> effect list" where
  "DoesValueVary_loop data v fid [] = (False, [])"
| "DoesValueVary_loop data v fid (r # rest) =
    (let (c, l1) = current_value (data ! r) fid in
     if v \<noteq> c then (True, l1)
     else let (b, l2) = DoesValueVary_loop data v fid rest in (b, l1 @ l2))"

definition DoesValueVary :: "Data list \<Rightarrow> nat list \<Rightarrow> string \<Rightarrow> bool \<times> effect list" where
  "DoesValueVary data sel fid =
    (let (v, l0) = current_value (data ! hd sel) fid;
         (b, l) = DoesValueVary_loop data v fid (tl sel)
     in (b, l0 @ l))"

text \<open>\<^verbatim>\<open>EditTagDialog::IsValueModified\<close>.\<close>

fun IsValueModified :: "Data list \<Rightarrow> nat list \<Rightarrow> string \<Rightarrow> bool \<times> effect list" where
  "IsValueModified data [] fid = (False, [])"
| "IsValueModified data (i # rest) fid =
    (let (ov, l1) = original_value (data ! i) fid;
         (cv, l2) = current_value (data ! i) fid
     in if ov \<noteq> cv then (True, l1 @ l2)
        else let (b, l3) = IsValueModified data rest fid in (b, l1 @ l2 @ l3))"


subsection \<open>Editing a field over a selection\<close>

text \<open>
  A field of the dialog (\<^verbatim>\<open>FieldData\<close>) is its key \<^verbatim>\<open>id_\<close> and its editor widget.
  Of the editor the model keeps what \<^verbatim>\<open>UpdateFieldValue\<close> reads: \<open>Some v\<close> is an
  \<^verbatim>\<open>ExtendedEditor\<close> whose \<^verbatim>\<open>value()\<close> is \<open>v\<close>, and \<open>None\<close> is a widget for
  which the \<^verbatim>\<open>dynamic_cast\<close> fails.
\<close>

record FieldData =
  field_id :: string
  editor :: "QVariant option"

text \<open>\<^verbatim>\<open>EditTagDialog::UpdateModifiedField\<close>: the label and the editor turn bold.\<close>

definition UpdateModifiedField :: "FieldData \<Rightarrow> nat list \<Rightarrow> Data list \<Rightarrow> effect list" where
  "UpdateModifiedField field sel data =
    (let (modified, l) = IsValueModified data sel (field_id field)
     in l @ [SetBold (field_id field) modified])"

text \<open>
  \<^verbatim>\<open>EditTagDialog::InitFieldValue\<close>. The editor is cleared and then shows the hint
  (\<open>SetHint\<close>) or the value (\<open>SetEditorValue\<close>).
\<close>

definition InitFieldValue :: "FieldData \<Rightarrow> nat list \<Rightarrow> Data list \<Rightarrow> effect list" where
  "InitFieldValue field sel data =
    (let (varies, l0) = DoesValueVary data sel (field_id field);
         l1 = (case editor field of
                 Some _ \<Rightarrow>
                   if varies then [SetHint (field_id field)]
                   else (let (v, l) = current_value (data ! (sel ! 0)) (field_id field)
                         in l @ [SetEditorValue (field_id field) v])
               | None \<Rightarrow> [Log Error [''Missing editor for'', field_id field]])
     in l0 @ l1 @ UpdateModifiedField field sel data)"

text \<open>\<^verbatim>\<open>EditTagDialog::UpdateFieldValue\<close>: the loop over the selection, then the function.\<close>

fun UpdateFieldValue_loop ::
  "conversions \<Rightarrow> string \<Rightarrow> QVariant \<Rightarrow> nat list \<Rightarrow> Data list \<Rightarrow> Data list \<times> effect list" where
  "UpdateFieldValue_loop qt fid v [] data = (data, [])"
| "UpdateFieldValue_loop qt fid v (i # rest) data =
    (let (d', l1) = set_value qt (data ! i) fid v;
         (data', l2) = UpdateFieldValue_loop qt fid v rest (data[i := d'])
     in (data', l1 @ l2))"

definition UpdateFieldValue ::
  "conversions \<Rightarrow> FieldData \<Rightarrow> nat list \<Rightarrow> Data list \<Rightarrow> Data list \<times> effect list" where
  "UpdateFieldValue qt field sel data =
    (let (v, l0) = (case editor field of
                      Some x \<Rightarrow> (x, [])
                    | None \<Rightarrow> (Invalid, [Log Error [''Missing editor for'', field_id field]]))
     in if \<not> isValid v then (data, l0)
        else (let (data', l1) = UpdateFieldValue_loop qt (field_id field) v sel data
              in (data', l0 @ l1 @ UpdateModifiedField field sel data')))"

text \<open>\<^verbatim>\<open>EditTagDialog::ResetFieldValue\<close>.\<close>

fun ResetFieldValue_loop ::
  "conversions \<Rightarrow> string \<Rightarrow> nat list \<Rightarrow> Data list \<Rightarrow> Data list \<times> effect list" where
  "ResetFieldValue_loop qt fid [] data = (data, [])"
| "ResetFieldValue_loop qt fid (i # rest) data =
    (let (ov, l1) = original_value (data ! i) fid;
         (d', l2) = set_value qt (data ! i) fid ov;
         (data', l3) = ResetFieldValue_loop qt fid rest (data[i := d'])
     in (data', l1 @ l2 @ l3))"

definition ResetFieldValue ::
  "conversions \<Rightarrow> FieldData \<Rightarrow> nat list \<Rightarrow> Data list \<Rightarrow> Data list \<times> effect list" where
  "ResetFieldValue qt field sel data =
    (let (data', l) = ResetFieldValue_loop qt (field_id field) sel data
     in (data', l @ InitFieldValue field sel data'))"

subsection \<open>The operations of the specification\<close>

text \<open>
  The specification's \<^verbatim>\<open>FieldValue\<close> names the two reads that \<open>InitFieldValue\<close>
  makes for a field: the current value in the first selected row and whether
  the value varies over the selection. Its \<^verbatim>\<open>SetFieldValue\<close> with value \<open>v\<close> is
  \<open>UpdateFieldValue\<close> on a field whose editor holds \<open>v\<close>.
\<close>

definition FieldValue :: "Data list \<Rightarrow> nat list \<Rightarrow> string \<Rightarrow> QVariant \<times> bool" where
  "FieldValue data sel fid =
    (fst (current_value (data ! (sel ! 0)) fid), fst (DoesValueVary data sel fid))"

definition SetFieldValue ::
  "conversions \<Rightarrow> nat list \<Rightarrow> string \<Rightarrow> QVariant \<Rightarrow> Data list \<Rightarrow> Data list" where
  "SetFieldValue qt sel fid v data =
     fst (UpdateFieldValue qt \<lparr>field_id = fid, editor = Some v\<rparr> sel data)"

text \<open>
  The values an editor yields for a field have the type of the field: a string
  for the ten text fields, an int for \<^verbatim>\<open>track\<close>, \<^verbatim>\<open>disc\<close> and \<^verbatim>\<open>year\<close>, a bool for
  \<^verbatim>\<open>compilation\<close>.
\<close>

definition fits :: "string \<Rightarrow> QVariant \<Rightarrow> bool" where
  "fits fid v =
    (case v of
       Invalid \<Rightarrow> False
     | VString _ \<Rightarrow> fid \<in> set (take 10 field_ids)
     | VInt _ \<Rightarrow> fid \<in> {''track'', ''disc'', ''year''}
     | VBool _ \<Rightarrow> fid = ''compilation'')"

text \<open>A sequence of field edits, each on its own field and selection.\<close>

fun apply_edits :: "conversions \<Rightarrow> (FieldData \<times> nat list) list \<Rightarrow> Data list \<Rightarrow> Data list" where
  "apply_edits qt [] data = data"
| "apply_edits qt ((field, sel) # rest) data =
     apply_edits qt rest (fst (UpdateFieldValue qt field sel data))"

section \<open>Cover art\<close>

text \<open>
  \<^verbatim>\<open>EditTagDialog::UpdateCoverOf\<close>. The cover actions call it as
  \<^verbatim>\<open>UpdateCoverOf(*song, sel, cover_url)\<close> with \<^verbatim>\<open>song\<close> pointing at
  \<^verbatim>\<open>data_[sel.first().row()].original_\<close>. The loop writes \<^verbatim>\<open>original_\<close> only in rows
  other than \<^verbatim>\<open>sel.first().row()\<close>, so the record behind the reference \<^verbatim>\<open>selected\<close>
  stays as it was on entry and is passed by value here.

  \<^verbatim>\<open>Song::effective_albumartist()\<close> is not among the sources and is a
  parameter. \<^verbatim>\<open>UpdateSummaryTab\<close> changes widgets only and is listed as an effect.
\<close>

fun UpdateCoverOf_loop ::
  "(Song \<Rightarrow> string) \<Rightarrow> Song \<Rightarrow> nat \<Rightarrow> QUrl \<Rightarrow> nat \<Rightarrow> Data list \<Rightarrow> Data list" where
  "UpdateCoverOf_loop effective_albumartist selected first cover_url i [] = []"
| "UpdateCoverOf_loop effective_albumartist selected first cover_url i (d # rest) =
    (let d1 = (if i \<noteq> first then
                 (if effective_albumartist selected = effective_albumartist (original d)
                     \<and> album selected = album (original d)
                  then d\<lparr>original := (original d)\<lparr>art_manual := cover_url\<rparr>\<rparr>
                  else d)
               else d);
         d2 = d1\<lparr>current := (current d1)\<lparr>art_manual := art_manual (original d1)\<rparr>\<rparr>
     in d2 # UpdateCoverOf_loop effective_albumartist selected first cover_url (Suc i) rest)"

definition UpdateCoverOf ::
  "(Song \<Rightarrow> string) \<Rightarrow> Song \<Rightarrow> nat list \<Rightarrow> QUrl \<Rightarrow> Data list \<Rightarrow> Data list \<times> effect list" where
  "UpdateCoverOf effective_albumartist selected sel cover_url data =
    (if \<not> is_valid selected \<or> song_id selected = - 1 then (data, [])
     else (UpdateCoverOf_loop effective_albumartist selected (hd sel) cover_url 0 data,
           [UpdateSummaryTab selected]))"

section \<open>Saving\<close>

text \<open>
  The members of the dialog that saving reads and writes (\<open>dialog_data\<close> is
  \<^verbatim>\<open>data_\<close>). \<^verbatim>\<open>pending_\<close> is an
  \<^verbatim>\<open>int\<close> that counts the outstanding writes; it moves by one per entry of
  \<^verbatim>\<open>data_\<close>, whose length is itself an \<^verbatim>\<open>int\<close>, so it stays in range and is
  an \<open>int\<close> here.
\<close>

record dialog =
  dialog_data :: "Data list"
  loading :: bool
  pending :: int

text \<open>
  \<^verbatim>\<open>EditTagDialog::SetLoading\<close>; the widgets it enables and the label it shows
  are not kept.
\<close>

definition SetLoading :: "string \<Rightarrow> dialog \<Rightarrow> bool \<times> dialog" where
  "SetLoading message s =
    (let loading' = (message \<noteq> []) in
     if loading' = loading s then (False, s) else (True, s\<lparr>loading := loading'\<rparr>))"

text \<open>\<^verbatim>\<open>EditTagDialog::AcceptFinished\<close>; \<open>DialogAccept\<close> is the call of \<^verbatim>\<open>QDialog::accept()\<close>.\<close>

definition AcceptFinished :: "dialog \<Rightarrow> dialog \<times> effect list" where
  "AcceptFinished s =
    (case SetLoading [] s of
       (False, s') \<Rightarrow> (s', [])
     | (True, s') \<Rightarrow> (s', [DialogAccept]))"

text \<open>
  \<^verbatim>\<open>EditTagDialog::SaveData\<close>: the loop, then the function.
  \<^verbatim>\<open>Song::IsMetadataEqual\<close> is not among the sources and is a parameter.
  \<open>SaveFile filename song\<close> is the request to the tag reader; the slot connected
  to its reply is \<open>SongSaveComplete\<close> with the same file name and song.
\<close>

fun SaveData_loop :: "(Song \<Rightarrow> Song \<Rightarrow> bool) \<Rightarrow> Data list \<Rightarrow> dialog \<Rightarrow> dialog \<times> effect list" where
  "SaveData_loop IsMetadataEqual [] s = (s, [])"
| "SaveData_loop IsMetadataEqual (ref # rest) s =
    (if IsMetadataEqual (current ref) (original ref) then SaveData_loop IsMetadataEqual rest s
     else (let s1 = s\<lparr>pending := pending s + 1\<rparr>;
               (s2, l) = SaveData_loop IsMetadataEqual rest s1
           in (s2, SaveFile (toLocalFile (url (current ref))) (current ref) # l)))"

definition SaveData :: "(Song \<Rightarrow> Song \<Rightarrow> bool) \<Rightarrow> Data list \<Rightarrow> dialog \<Rightarrow> dialog \<times> effect list" where
  "SaveData IsMetadataEqual tag_data s =
    (let (s1, l1) = SaveData_loop IsMetadataEqual tag_data s in
     if pending s1 \<le> 0 then (let (s2, l2) = AcceptFinished s1 in (s2, l1 @ l2))
     else (s1, l1))"

text \<open>\<^verbatim>\<open>EditTagDialog::accept\<close>.\<close>

definition accept :: "(Song \<Rightarrow> Song \<Rightarrow> bool) \<Rightarrow> dialog \<Rightarrow> dialog \<times> effect list" where
  "accept IsMetadataEqual s =
    (case SetLoading ''Saving tracks...'' s of
       (False, s') \<Rightarrow> (s', [])
     | (True, s') \<Rightarrow> SaveData IsMetadataEqual (dialog_data s') s')"

text \<open>
  \<^verbatim>\<open>EditTagDialog::SongSaveComplete\<close>; \<open>success\<close> is
  \<^verbatim>\<open>reply->message().save_file_response().success()\<close>, and the message is the
  untranslated text with the file name between apostrophes.
\<close>

definition error_message :: "string \<Rightarrow> string" where
  "error_message filename =
     ''An error occurred writing metadata to '' @ [CHR 0x27] @ filename @ [CHR 0x27]"

definition SongSaveComplete :: "bool \<Rightarrow> string \<Rightarrow> Song \<Rightarrow> dialog \<Rightarrow> dialog \<times> effect list" where
  "SongSaveComplete success filename song s =
    (let s1 = s\<lparr>pending := pending s - 1\<rparr>;
         l1 = (if \<not> success then [EmitError (error_message filename)]
               else if is_collection_song song then [AddOrUpdateSongs [song]]
               else [])
     in if pending s1 \<le> 0 then (let (s2, l2) = AcceptFinished s1 in (s2, l1 @ l2))
        else (s1, l1))"

text \<open>
  The replies of the tag reader arrive on the dialog's thread, one at a time
  and in any order. A run hands a list of completions, each with its outcome,
  to \<open>SongSaveComplete\<close>.
\<close>

fun complete_all :: "(bool \<times> string \<times> Song) list \<Rightarrow> dialog \<Rightarrow> dialog \<times> effect list" where
  "complete_all [] s = (s, [])"
| "complete_all ((success, filename, song) # rest) s =
    (let (s1, l1) = SongSaveComplete success filename song s;
         (s2, l2) = complete_all rest s1
     in (s2, l1 @ l2))"

text \<open>
  What the properties of saving speak about: the entries that \<open>SaveData\<close> does
  not skip, and the write requests, error messages and collection updates
  among a list of effects.
\<close>

definition modified_entries :: "(Song \<Rightarrow> Song \<Rightarrow> bool) \<Rightarrow> Data list \<Rightarrow> Data list" where
  "modified_entries IsMetadataEqual tag_data =
     filter (\<lambda>d. \<not> IsMetadataEqual (current d) (original d)) tag_data"

fun save_requests :: "effect list \<Rightarrow> (string \<times> Song) list" where
  "save_requests [] = []"
| "save_requests (SaveFile filename song # l) = (filename, song) # save_requests l"
| "save_requests (_ # l) = save_requests l"

fun error_messages :: "effect list \<Rightarrow> string list" where
  "error_messages [] = []"
| "error_messages (EmitError m # l) = m # error_messages l"
| "error_messages (_ # l) = error_messages l"

fun upserts :: "effect list \<Rightarrow> Song list" where
  "upserts [] = []"
| "upserts (AddOrUpdateSongs songs # l) = songs @ upserts l"
| "upserts (_ # l) = upserts l"

definition completion_effects :: "(bool \<times> string \<times> Song) list \<Rightarrow> effect list" where
  "completion_effects cs =
     concat (map (\<lambda>(success, filename, song).
               if \<not> success then [EmitError (error_message filename)]
               else if is_collection_song song then [AddOrUpdateSongs [song]]
               else []) cs)"

section \<open>The Tidal cover provider\<close>

text \<open>
  \<^verbatim>\<open>src/covermanager/tidalcoverprovider.cpp\<close>. A JSON value as the provider reads it:
  a number is kept as what \<^verbatim>\<open>toInt()\<close> returns for it, an object as its members in
  order. \<^verbatim>\<open>toString()\<close> and \<^verbatim>\<open>toInt()\<close> return the default, the empty string and
  0, for a value of another type, and \<^verbatim>\<open>operator[]\<close> returns the undefined value
  for a missing key.
\<close>

datatype QJsonValue =
    JNull
  | JBool bool
  | JNumber int
  | JString string
  | JArray "QJsonValue list"
  | JObject "(string \<times> QJsonValue) list"
  | JUndefined

type_synonym QJsonObject = "(string \<times> QJsonValue) list"

definition isObject :: "QJsonValue \<Rightarrow> bool" where
  "isObject v = (case v of JObject _ \<Rightarrow> True | _ \<Rightarrow> False)"

definition toObject :: "QJsonValue \<Rightarrow> QJsonObject" where
  "toObject v = (case v of JObject members \<Rightarrow> members | _ \<Rightarrow> [])"

definition isArray :: "QJsonValue \<Rightarrow> bool" where
  "isArray v = (case v of JArray _ \<Rightarrow> True | _ \<Rightarrow> False)"

definition toArray :: "QJsonValue \<Rightarrow> QJsonValue list" where
  "toArray v = (case v of JArray items \<Rightarrow> items | _ \<Rightarrow> [])"

definition json_toString :: "QJsonValue \<Rightarrow> string" where
  "json_toString v = (case v of JString s \<Rightarrow> s | _ \<Rightarrow> [])"

definition json_toInt :: "QJsonValue \<Rightarrow> int" where
  "json_toInt v = (case v of JNumber n \<Rightarrow> n | _ \<Rightarrow> 0)"

definition contains :: "QJsonObject \<Rightarrow> string \<Rightarrow> bool" where
  "contains obj key = (map_of obj key \<noteq> None)"

definition json_value :: "QJsonObject \<Rightarrow> string \<Rightarrow> QJsonValue" where
  "json_value obj key = (case map_of obj key of Some v \<Rightarrow> v | None \<Rightarrow> JUndefined)"

text \<open>
  The Tidal service as the provider uses it, a request as \<open>StartSearch\<close> builds it, and
  a finished network reply as \<open>GetReplyData\<close> reads it (\<open>net_error = 0\<close> is
  \<^verbatim>\<open>QNetworkReply::NoError\<close>).
\<close>

record TidalService =
  authenticated :: bool
  country_code :: string
  access_token :: string

record request =
  req_url :: string
  req_query :: "(string \<times> string) list"
  redirect_policy :: string
  content_type :: string
  authorization :: "string option"

record reply_content =
  net_error :: nat
  error_string :: string
  http_status :: int
  body :: string

record CoverProviderSearchResult =
  result_artist :: string
  result_album :: string
  number :: int
  image_url :: string
  image_size :: "nat \<times> nat"

text \<open>
  What the provider uses and the sources do not hold is a parameter: the constants
  \<^verbatim>\<open>TidalService::kApiUrl\<close> and \<^verbatim>\<open>kResourcesUrl\<close>, \<^verbatim>\<open>TidalService::Logout\<close>,
  \<^verbatim>\<open>JsonCoverProvider::ExtractJsonObj\<close>, \<^verbatim>\<open>Song::AlbumRemoveDiscMisc\<close>, and of Qt
  \<^verbatim>\<open>QUrl::toPercentEncoding\<close> and \<^verbatim>\<open>QJsonDocument::fromJson\<close> (\<open>None\<close> is a parse
  error or an empty document).
\<close>

record tidal_env =
  kApiUrl :: string
  kResourcesUrl :: string
  Logout :: "TidalService \<Rightarrow> TidalService"
  ExtractJsonObj :: "string \<Rightarrow> QJsonObject"
  AlbumRemoveDiscMisc :: "string \<Rightarrow> string"
  toPercentEncoding :: "string \<Rightarrow> string"
  fromJson :: "string \<Rightarrow> QJsonValue option"

text \<open>
  The text handed to \<^verbatim>\<open>TidalCoverProvider::Error\<close>: a literal, or one of the three
  formats of \<open>GetReplyData\<close> with its arguments. \<open>LogError\<close> is a call of \<^verbatim>\<open>Error\<close>
  with the text and the debug value, \<open>Get\<close> the request sent and the reply object it
  returned, \<open>SearchFinished\<close> the signal.
\<close>

datatype error_text =
    Literal string
  | ReplyError string nat
  | UserMessage string int int
  | HttpCode int

datatype provider_effect =
    Get nat request
  | LogError error_text "QJsonValue option"
  | SearchFinished int "CoverProviderSearchResult list"

text \<open>
  The provider: its service (\<open>None\<close> is a null pointer), the list \<^verbatim>\<open>replies_\<close>, and
  the connections of the \<^verbatim>\<open>finished\<close> signal of a reply to \<open>HandleSearchReply\<close> with
  the search id the lambda captured. A reply object is a number; \<open>next_reply\<close> is the
  one the network manager returns next.
\<close>

record provider =
  service :: "TidalService option"
  replies :: "nat list"
  connections :: "(nat \<times> int) list"
  next_reply :: nat

text \<open>
  \<^verbatim>\<open>TidalCoverProvider::StartSearch\<close>; \<^verbatim>\<open>kLimit\<close> is 10. The parameters
  \<^verbatim>\<open>artist\<close>, \<^verbatim>\<open>album\<close> and \<^verbatim>\<open>title\<close> carry a prime, the plain names being
  the fields of a song.
\<close>

definition StartSearch ::
  "tidal_env \<Rightarrow> string \<Rightarrow> string \<Rightarrow> string \<Rightarrow> int \<Rightarrow> provider
     \<Rightarrow> bool \<times> provider \<times> provider_effect list" where
  "StartSearch env artist' album' title' search_id s =
    (case service s of
       None \<Rightarrow> (False, s, [])
     | Some svc \<Rightarrow>
        if \<not> authenticated svc then (False, s, [])
        else if artist' = [] \<and> album' = [] \<and> title' = [] then (False, s, [])
        else
          (let (resource, query) =
                 (if album' = [] \<and> title' \<noteq> [] then
                    (''search/tracks'', (if artist' \<noteq> [] then artist' @ '' '' else artist') @ title')
                  else
                    (''search/albums'',
                     if album' \<noteq> [] then (if artist' \<noteq> [] then artist' @ '' '' else artist') @ album'
                     else artist'));
               params = [(''query'', query), (''limit'', ''10''),
                         (''countryCode'', country_code svc)];
               url_query =
                 map (\<lambda>(k, v). (toPercentEncoding env k, toPercentEncoding env v)) params;
               req = \<lparr>req_url = kApiUrl env @ ''/'' @ resource,
                      req_query = url_query,
                      redirect_policy = ''NoLessSafeRedirectPolicy'',
                      content_type = ''application/x-www-form-urlencoded'',
                      authorization =
                        (if access_token svc \<noteq> [] then Some (''Bearer '' @ access_token svc)
                         else None)\<rparr>;
               reply = next_reply s
           in (True,
               s\<lparr>replies := replies s @ [reply],
                 connections := connections s @ [(reply, search_id)],
                 next_reply := Suc reply\<rparr>,
               [Get reply req])))"

text \<open>\<^verbatim>\<open>TidalCoverProvider::CancelSearch\<close>: the body is \<^verbatim>\<open>Q_UNUSED(id);\<close>.\<close>

definition CancelSearch :: "int \<Rightarrow> provider \<Rightarrow> provider \<times> provider_effect list" where
  "CancelSearch search_id s = (s, [])"

text \<open>\<^verbatim>\<open>TidalCoverProvider::GetReplyData\<close>.\<close>

definition GetReplyData ::
  "tidal_env \<Rightarrow> reply_content \<Rightarrow> provider \<Rightarrow> string \<times> provider \<times> provider_effect list" where
  "GetReplyData env reply s =
    (if net_error reply = 0 \<and> http_status reply = 200 then (body reply, s, [])
     else if net_error reply \<noteq> 0 \<and> net_error reply < 200 then
       ([], s, [LogError (ReplyError (error_string reply) (net_error reply)) None])
     else
       (let parsed =
              (case fromJson env (body reply) of
                 Some (JObject json_obj) \<Rightarrow>
                   if json_obj \<noteq> [] \<and> contains json_obj ''status''
                      \<and> contains json_obj ''userMessage''
                   then Some (json_toInt (json_value json_obj ''status''),
                              json_toInt (json_value json_obj ''subStatus''),
                              json_toString (json_value json_obj ''userMessage''))
                   else None
               | _ \<Rightarrow> None);
            (status, sub_status) =
              (case parsed of Some (st, sub, _) \<Rightarrow> (st, sub) | None \<Rightarrow> (0, 0));
            error =
              (case parsed of
                 Some (st, sub, user_message) \<Rightarrow> UserMessage user_message st sub
               | None \<Rightarrow>
                   if net_error reply \<noteq> 0
                   then ReplyError (error_string reply) (net_error reply)
                   else HttpCode (http_status reply));
            s' = (if status = 401 \<and> sub_status = 6001
                  then s\<lparr>service := map_option (Logout env) (service s)\<rparr> else s)
        in ([], s', [LogError error None])))"

text \<open>
  \<^verbatim>\<open>TidalCoverProvider::HandleSearchReply\<close>: one item of the array (an error and
  \<^verbatim>\<open>continue\<close>, or the three results of the item, numbered \<open>i + 1\<close>), the loop over
  the items, then the function.
\<close>

definition cover_sizes :: "(string \<times> nat \<times> nat) list" where
  "cover_sizes = [(''1280x1280'', 1280, 1280), (''750x750'', 750, 750), (''640x640'', 640, 640)]"

definition search_item ::
  "tidal_env \<Rightarrow> int \<Rightarrow> QJsonValue \<Rightarrow> provider_effect + CoverProviderSearchResult list" where
  "search_item env i value_item =
    (if \<not> isObject value_item then
       Inl (LogError (Literal ''Invalid Json reply, items array item is not a object.'') None)
     else let obj_item = toObject value_item in
       if \<not> contains obj_item ''artist'' then
         Inl (LogError (Literal ''Invalid Json reply, items array item is missing artist.'')
                (Some (JObject obj_item)))
       else let value_artist = json_value obj_item ''artist'' in
         if \<not> isObject value_artist then
           Inl (LogError
                  (Literal ''Invalid Json reply, items array item artist is not a object.'')
                  (Some value_artist))
         else let obj_artist = toObject value_artist in
           if \<not> contains obj_artist ''name'' then
             Inl (LogError
                    (Literal ''Invalid Json reply, items array item artist is missing name.'')
                    (Some (JObject obj_artist)))
           else let artist' = json_toString (json_value obj_artist ''name'') in
             if contains obj_item ''album'' \<and> \<not> isObject (json_value obj_item ''album'') then
               Inl (LogError
                      (Literal ''Invalid Json reply, items array item album is not a object.'')
                      (Some (json_value obj_item ''album'')))
             else let obj_album = (if contains obj_item ''album''
                                   then toObject (json_value obj_item ''album'') else obj_item) in
               if \<not> contains obj_album ''title'' \<or> \<not> contains obj_album ''cover'' then
                 Inl (LogError
                        (Literal
                           ''Invalid Json reply, items array item album is missing title or cover.'')
                        (Some (JObject obj_album)))
               else
                 (let album' = json_toString (json_value obj_album ''title'');
                      cover = map (\<lambda>c. if c = CHR ''-'' then CHR ''/'' else c)
                                (json_toString (json_value obj_album ''cover''))
                  in Inr (map (\<lambda>(name, size).
                            \<lparr>result_artist = artist',
                             result_album = AlbumRemoveDiscMisc env album',
                             number = i + 1,
                             image_url = kResourcesUrl env @ ''/images/'' @ cover @ ''/''
                                           @ name @ ''.jpg'',
                             image_size = size\<rparr>) cover_sizes)))"

fun search_items ::
  "tidal_env \<Rightarrow> int \<Rightarrow> QJsonValue list
     \<Rightarrow> CoverProviderSearchResult list \<times> provider_effect list" where
  "search_items env i [] = ([], [])"
| "search_items env i (value_item # rest) =
    (case search_item env i value_item of
       Inl e \<Rightarrow> (let (results, l) = search_items env i rest in (results, e # l))
     | Inr item_results \<Rightarrow>
         (let (results, l) = search_items env (i + 1) rest in (item_results @ results, l)))"

definition HandleSearchReply ::
  "tidal_env \<Rightarrow> nat \<Rightarrow> reply_content \<Rightarrow> int \<Rightarrow> provider \<Rightarrow> provider \<times> provider_effect list" where
  "HandleSearchReply env reply content search_id s =
    (if reply \<notin> set (replies s) then (s, [])
     else
       (let s1 = s\<lparr>replies := removeAll reply (replies s),
                   connections := filter (\<lambda>(r, _). r \<noteq> reply) (connections s)\<rparr>;
            (data, s2, l1) = GetReplyData env content s1
        in if data = [] then (s2, l1 @ [SearchFinished search_id []])
           else let json_obj = ExtractJsonObj env data in
             if json_obj = [] then (s2, l1 @ [SearchFinished search_id []])
             else if \<not> contains json_obj ''items'' then
               (s2, l1 @ [LogError (Literal ''Json object is missing items.'')
                            (Some (JObject json_obj)),
                          SearchFinished search_id []])
             else let value_items = json_value json_obj ''items'' in
               if \<not> isArray value_items then (s2, l1 @ [SearchFinished search_id []])
               else let array_items = toArray value_items in
                 if array_items = [] then (s2, l1 @ [SearchFinished search_id []])
                 else (let (results, l2) = search_items env 0 array_items
                       in (s2, l1 @ l2 @ [SearchFinished search_id results]))))"

text \<open>
  When a reply finishes, Qt calls the slot connected to its \<^verbatim>\<open>finished\<close> signal, if
  the connection still stands.
\<close>

definition reply_finished ::
  "tidal_env \<Rightarrow> nat \<Rightarrow> reply_content \<Rightarrow> provider \<Rightarrow> provider \<times> provider_effect list" where
  "reply_finished env reply content s =
    (case map_of (connections s) reply of
       None \<Rightarrow> (s, [])
     | Some search_id \<Rightarrow> HandleSearchReply env reply content search_id s)"

text \<open>The search results delivered among a list of effects, with their search ids.\<close>

fun delivered :: "provider_effect list \<Rightarrow> (int \<times> CoverProviderSearchResult list) list" where
  "delivered [] = []"
| "delivered (SearchFinished search_id results # l) = (search_id, results) # delivered l"
| "delivered (_ # l) = delivered l"

fun requests_sent :: "provider_effect list \<Rightarrow> (nat \<times> request) list" where
  "requests_sent [] = []"
| "requests_sent (Get reply req # l) = (reply, req) # requests_sent l"
| "requests_sent (_ # l) = requests_sent l"

section \<open>Example data\<close>

text \<open>
  Modelled from the spec: the constructor \<^verbatim>\<open>Data(song)\<close> is declared in the dialog's
  header, which is not among the sources; an entry is created with its original and its
  current record both equal to the song loaded.
\<close>

definition new_Data :: "Song \<Rightarrow> Data" where
  "new_Data song = \<lparr>original = song, current = song\<rparr>"

text \<open>
  Three tracks, two of them of album X by artist Y, as in the scenarios of the
  specification; the genre of the first two is then set to Jazz.
\<close>

definition example_song :: "string \<Rightarrow> string \<Rightarrow> string \<Rightarrow> int \<Rightarrow> Song" where
  "example_song path who alb ident =
    \<lparr>title = ''t'', artist = who, album = alb, albumartist = [], composer = [],
     performer = [], grouping = [], genre = ''Rock'', comment = [], lyrics = [], track = 1,
     disc = 1, year = 2020, compilation = False, art_manual = OtherUrl [],
     url = FileUrl path, song_id = ident, is_valid = True, is_collection_song = True\<rparr>"

definition example_conversions :: conversions where
  "example_conversions = \<lparr>string_of = (\<lambda>_. []), int_of = (\<lambda>_. 0), bool_of = (\<lambda>_. False)\<rparr>"

definition three_tracks :: "Data list" where
  "three_tracks =
    [new_Data (example_song ''/m/1.flac'' ''Y'' ''X'' 1),
     new_Data (example_song ''/m/2.flac'' ''Y'' ''X'' 2),
     new_Data (example_song ''/m/3.flac'' ''Y'' ''Z'' 3)]"

definition jazz_on_two :: "Data list" where
  "jazz_on_two = SetFieldValue example_conversions [0, 1] ''genre'' (VString ''Jazz'') three_tracks"

definition example_IsMetadataEqual :: "Song \<Rightarrow> Song \<Rightarrow> bool" where
  "example_IsMetadataEqual a b =
    (title a = title b \<and> artist a = artist b \<and> album a = album b
     \<and> albumartist a = albumartist b \<and> composer a = composer b \<and> performer a = performer b
     \<and> grouping a = grouping b \<and> genre a = genre b \<and> comment a = comment b
     \<and> lyrics a = lyrics b \<and> track a = track b \<and> disc a = disc b \<and> year a = year b
     \<and> compilation a = compilation b \<and> art_manual a = art_manual b)"

definition example_dialog :: dialog where
  "example_dialog = \<lparr>dialog_data = jazz_on_two, loading = False, pending = 0\<rparr>"

definition jazz_1 :: Song where
  "jazz_1 = (example_song ''/m/1.flac'' ''Y'' ''X'' 1)\<lparr>genre := ''Jazz''\<rparr>"

definition jazz_2 :: Song where
  "jazz_2 = (example_song ''/m/2.flac'' ''Y'' ''X'' 2)\<lparr>genre := ''Jazz''\<rparr>"

definition example_effective_albumartist :: "Song \<Rightarrow> string" where
  "example_effective_albumartist song =
     (if albumartist song = [] then artist song else albumartist song)"

definition uncatalogued_pair :: "Data list" where
  "uncatalogued_pair =
    [new_Data (example_song ''/m/1.flac'' ''Y'' ''X'' (- 1)),
     new_Data (example_song ''/m/2.flac'' ''Y'' ''X'' 2)]"

definition example_cover :: QUrl where
  "example_cover = OtherUrl ''http://img/x.jpg''"

text \<open>
  A provider with an authenticated service, a search for album X by artist Y with
  search id 7, its cancellation, and a reply with one album.
\<close>

definition example_body :: string where
  \<open>example_body = ''{"items":[{"artist":{"name":"Y"},"title":"X","cover":"ab-cd"}]}''\<close>

definition example_items :: QJsonObject where
  "example_items =
    [(''items'', JArray [JObject [(''artist'', JObject [(''name'', JString ''Y'')]),
                                 (''title'', JString ''X''),
                                 (''cover'', JString ''ab-cd'')]])]"

definition example_env :: tidal_env where
  "example_env =
    \<lparr>kApiUrl = ''https://api.tidalhifi.com/v1'',
     kResourcesUrl = ''https://resources.tidal.com'',
     Logout = (\<lambda>svc. svc\<lparr>authenticated := False\<rparr>),
     ExtractJsonObj = (\<lambda>bytes. if bytes = example_body then example_items else []),
     AlbumRemoveDiscMisc = (\<lambda>name. name),
     toPercentEncoding = (\<lambda>s. s),
     fromJson = (\<lambda>_. None)\<rparr>"

definition example_provider :: provider where
  "example_provider =
    \<lparr>service = Some \<lparr>authenticated = True, country_code = ''US'', access_token = ''token''\<rparr>,
     replies = [], connections = [], next_reply = 0\<rparr>"

definition example_reply :: reply_content where
  "example_reply = \<lparr>net_error = 0, error_string = [], http_status = 200,
                      body = example_body\<rparr>"

definition search_started :: provider where
  "search_started = fst (snd (StartSearch example_env ''Y'' ''X'' [] 7 example_provider))"

definition search_cancelled :: provider where
  "search_cancelled = fst (CancelSearch 7 search_started)"

section \<open>Properties of the field operations\<close>

lemma IsValueModified_fst:
  "fst (IsValueModified data sel fid) =
     (\<exists>i \<in> set sel. fst (original_value (data ! i) fid) \<noteq> fst (current_value (data ! i) fid))"
  by (induction sel) (auto simp: split_def Let_def)

lemma set_value_original: "original (fst (set_value qt d fid v)) = original d"
  by (simp add: set_value_def)

lemma set_value_unknown: "fid \<notin> set field_ids \<Longrightarrow> set_value qt d fid v = (d, [Log Warning [''Unknown ID'', fid]])"
  by (simp add: set_value_def field_ids_def)

lemma set_value_roundtrip:
  "fits fid v \<Longrightarrow> fst (current_value (fst (set_value qt d fid v)) fid) = v"
  by (cases v) (auto simp: fits_def field_ids_def set_value_def current_value_def value_def toString_def toInt_def toBool_def)

lemma set_value_reset:
  "fst (current_value (fst (set_value qt d fid (fst (original_value d fid)))) fid) = fst (original_value d fid)"
  by (simp add: set_value_def current_value_def original_value_def value_def toString_def toInt_def toBool_def)

lemma fits_known: "fits fid v \<Longrightarrow> fid \<in> set field_ids"
  by (cases v) (auto simp: fits_def field_ids_def)

lemma value_known_fits: "fid \<in> set field_ids \<Longrightarrow> fits fid (fst (value s fid))"
  by (auto simp: fits_def field_ids_def value_def)

lemma value_known_log: "fid \<in> set field_ids \<Longrightarrow> snd (value s fid) = []"
  by (auto simp: field_ids_def value_def)


lemma DoesValueVary_loop_fst:
  "fst (DoesValueVary_loop data v fid rest) =
     (\<exists>r \<in> set rest. fst (current_value (data ! r) fid) \<noteq> v)"
  by (induction rest) (auto simp: split_def Let_def)

lemma DoesValueVary_fst:
  "fst (DoesValueVary data sel fid) =
     (\<exists>r \<in> set (tl sel). fst (current_value (data ! r) fid) \<noteq> fst (current_value (data ! hd sel) fid))"
  by (simp add: DoesValueVary_def split_def Let_def DoesValueVary_loop_fst)

lemma map_original_update:
  "original d' = original (data ! i) \<Longrightarrow> map original (data[i := d']) = map original data"
  by (cases "i < length data") (simp_all add: map_update list_update_same_conv list_update_beyond)

lemma UpdateFieldValue_loop_length:
  "length (fst (UpdateFieldValue_loop qt fid v sel data)) = length data"
  by (induction sel arbitrary: data) (auto simp: split_def Let_def)

lemma UpdateFieldValue_loop_original:
  "map original (fst (UpdateFieldValue_loop qt fid v sel data)) = map original data"
proof (induction sel arbitrary: data)
  case Nil
  show ?case by simp
next
  case (Cons i rest)
  have "map original (data[i := fst (set_value qt (data ! i) fid v)]) = map original data"
    by (simp add: map_original_update set_value_original)
  with Cons show ?case by (simp add: split_def Let_def)
qed

lemma UpdateFieldValue_loop_unknown:
  "fid \<notin> set field_ids \<Longrightarrow> rows_ok data sel \<Longrightarrow> fst (UpdateFieldValue_loop qt fid v sel data) = data"
  by (induction sel arbitrary: data) (auto simp: split_def Let_def set_value_unknown rows_ok_def)

lemma UpdateFieldValue_length:
  "length (fst (UpdateFieldValue qt field sel data)) = length data"
  by (simp add: UpdateFieldValue_def split_def Let_def UpdateFieldValue_loop_length)

lemma UpdateFieldValue_original:
  "map original (fst (UpdateFieldValue qt field sel data)) = map original data"
  by (simp add: UpdateFieldValue_def split_def Let_def UpdateFieldValue_loop_original)

lemma UpdateFieldValue_unknown:
  "field_id field \<notin> set field_ids \<Longrightarrow> rows_ok data sel \<Longrightarrow> fst (UpdateFieldValue qt field sel data) = data"
  by (simp add: UpdateFieldValue_def split_def Let_def UpdateFieldValue_loop_unknown)

lemma UpdateFieldValue_single:
  "i < length data \<Longrightarrow> v \<noteq> Invalid \<Longrightarrow>
   fst (UpdateFieldValue qt \<lparr>field_id = fid, editor = Some v\<rparr> [i] data)
     = data[i := fst (set_value qt (data ! i) fid v)]"
  by (simp add: UpdateFieldValue_def split_def Let_def isValid_def)

lemma apply_edits_length: "length (apply_edits qt edits data) = length data"
  by (induction edits arbitrary: data) (auto simp: UpdateFieldValue_length)

lemma apply_edits_original: "map original (apply_edits qt edits data) = map original data"
  by (induction edits arbitrary: data) (auto simp: UpdateFieldValue_original)

lemma ResetFieldValue_loop_length:
  "length (fst (ResetFieldValue_loop qt fid sel data)) = length data"
  by (induction sel arbitrary: data) (auto simp: split_def Let_def)

lemma ResetFieldValue_loop_original:
  "map original (fst (ResetFieldValue_loop qt fid sel data)) = map original data"
proof (induction sel arbitrary: data)
  case Nil
  show ?case by simp
next
  case (Cons i rest)
  have "map original (data[i := fst (set_value qt (data ! i) fid (fst (original_value (data ! i) fid)))])
          = map original data"
    by (simp add: map_original_update set_value_original)
  with Cons show ?case by (simp add: split_def Let_def)
qed

lemma ResetFieldValue_loop_outside:
  "j \<notin> set sel \<Longrightarrow> fst (ResetFieldValue_loop qt fid sel data) ! j = data ! j"
  by (induction sel arbitrary: data) (auto simp: split_def Let_def)

lemma ResetFieldValue_loop_restores:
  "j \<in> set sel \<Longrightarrow> j < length data \<Longrightarrow>
   fst (current_value (fst (ResetFieldValue_loop qt fid sel data) ! j) fid)
     = fst (original_value (data ! j) fid)"
proof (induction sel arbitrary: data)
  case Nil
  then show ?case by simp
next
  case (Cons i rest)
  let ?d = "fst (set_value qt (data ! i) fid (fst (original_value (data ! i) fid)))"
  let ?mid = "data[i := ?d]"
  have step: "fst (ResetFieldValue_loop qt fid (i # rest) data) = fst (ResetFieldValue_loop qt fid rest ?mid)"
    by (simp add: split_def Let_def)
  show ?case
  proof (cases "j \<in> set rest")
    case True
    have "fst (current_value (fst (ResetFieldValue_loop qt fid rest ?mid) ! j) fid)
            = fst (original_value (?mid ! j) fid)"
      using Cons.IH [of ?mid] True Cons.prems by simp
    also have "\<dots> = fst (original_value (data ! j) fid)"
      using Cons.prems by (cases "j = i") (simp_all add: original_value_def set_value_original)
    finally show ?thesis using step by simp
  next
    case False
    with Cons.prems have ji: "j = i" by simp
    have "fst (ResetFieldValue_loop qt fid rest ?mid) ! j = ?mid ! j"
      using False by (rule ResetFieldValue_loop_outside)
    with ji Cons.prems step show ?thesis by (simp add: set_value_reset)
  qed
qed

lemma ResetFieldValue_fst:
  "fst (ResetFieldValue qt field sel data) = fst (ResetFieldValue_loop qt (field_id field) sel data)"
  by (simp add: ResetFieldValue_def split_def Let_def)


lemma UpdateFieldValue_loop_Cons_fst:
  "fst (UpdateFieldValue_loop qt fid v (i # rest) data)
     = fst (UpdateFieldValue_loop qt fid v rest (data[i := fst (set_value qt (data ! i) fid v)]))"
  by (simp add: split_def Let_def)

lemma SetFieldValue_unfold:
  "v \<noteq> Invalid \<Longrightarrow>
   SetFieldValue qt sel fid v data = fst (UpdateFieldValue_loop qt fid v sel data)"
  by (simp add: SetFieldValue_def UpdateFieldValue_def isValid_def split_def Let_def)

lemma jazz_on_two_eq:
  "jazz_on_two =
    [\<lparr>original = example_song ''/m/1.flac'' ''Y'' ''X'' 1,
      current = (example_song ''/m/1.flac'' ''Y'' ''X'' 1)\<lparr>genre := ''Jazz''\<rparr>\<rparr>,
     \<lparr>original = example_song ''/m/2.flac'' ''Y'' ''X'' 2,
      current = (example_song ''/m/2.flac'' ''Y'' ''X'' 2)\<lparr>genre := ''Jazz''\<rparr>\<rparr>,
     new_Data (example_song ''/m/3.flac'' ''Y'' ''Z'' 3)]"
  by (simp add: jazz_on_two_def SetFieldValue_unfold UpdateFieldValue_loop_Cons_fst
      three_tracks_def new_Data_def set_value_def toString_def)

text \<open>
  Claim C4. Over a selection of rows of the entry list, \<open>IsValueModified\<close> returns true
  exactly when some selected entry's current value of the field differs from its
  original value; on the empty selection it returns false. It follows that it returns
  false when every selected entry's current value equals the original one.
\<close>

theorem IsValueModified_iff_some_entry_modified:
  "rows_ok data sel \<Longrightarrow>
   fst (IsValueModified data sel fid) =
     (\<exists>i \<in> set sel. fst (original_value (data ! i) fid) \<noteq> fst (current_value (data ! i) fid))
   \<and> fst (IsValueModified data [] fid) = False"
  by (simp add: IsValueModified_fst)

theorem IsValueModified_iff_some_entry_modified_witness:
  "rows_ok jazz_on_two [0, 1] \<and> fst (IsValueModified jazz_on_two [0, 1] ''genre'')
   \<and> rows_ok jazz_on_two [2] \<and> \<not> fst (IsValueModified jazz_on_two [2] ''genre'')"
  using IsValueModified_iff_some_entry_modified [of jazz_on_two "[0, 1]" "''genre''"]
    IsValueModified_iff_some_entry_modified [of jazz_on_two "[2]" "''genre''"]
  by (simp add: jazz_on_two_eq rows_ok_def original_value_def current_value_def value_def
      new_Data_def example_song_def)

text \<open>
  Claim C3. For a non-empty selection and a known field key, \<open>FieldValue\<close> is the
  current value of the field in the first selected entry, paired with a flag that is
  true exactly when another selected entry's current value differs from it. On a
  selection of one entry, setting a value and reading the field back gives that value
  and the flag false. The values are those an editor of the field yields, which \<open>fits\<close>
  states: a string, an int or a bool according to the field.
\<close>

theorem FieldValue_first_entry_and_varies:
  assumes "sel \<noteq> []" and "rows_ok data sel" and "fid \<in> set field_ids"
  shows "FieldValue data sel fid =
           (fst (current_value (data ! hd sel) fid),
            \<exists>r \<in> set (tl sel).
               fst (current_value (data ! r) fid) \<noteq> fst (current_value (data ! hd sel) fid))
         \<and> (\<forall>i v. i < length data \<and> fits fid v \<longrightarrow>
               FieldValue (SetFieldValue qt [i] fid v data) [i] fid = (v, False))"
proof -
  have first: "sel ! 0 = hd sel"
    using assms(1) by (simp add: hd_conv_nth)
  have roundtrip: "FieldValue (SetFieldValue qt [i] fid v data) [i] fid = (v, False)"
    if "i < length data" and "fits fid v" for i v
  proof -
    from that(2) have "v \<noteq> Invalid" by (auto simp: fits_def)
    then have "SetFieldValue qt [i] fid v data = data[i := fst (set_value qt (data ! i) fid v)]"
      using that(1) by (simp add: SetFieldValue_def UpdateFieldValue_single)
    then show ?thesis
      using that by (simp add: FieldValue_def DoesValueVary_fst set_value_roundtrip)
  qed
  show ?thesis
    using first roundtrip by (simp add: FieldValue_def DoesValueVary_fst)
qed

theorem FieldValue_first_entry_and_varies_witness:
  "[0, 1, 2] \<noteq> [] \<and> rows_ok jazz_on_two [0, 1, 2] \<and> ''genre'' \<in> set field_ids
   \<and> FieldValue jazz_on_two [0, 1, 2] ''genre'' = (VString ''Jazz'', True)
   \<and> (2::nat) < length jazz_on_two \<and> fits ''genre'' (VString ''Soul'')
   \<and> FieldValue (SetFieldValue example_conversions [2] ''genre'' (VString ''Soul'') jazz_on_two)
        [2] ''genre'' = (VString ''Soul'', False)"
proof -
  have a: "[0, 1, 2] \<noteq> ([]::nat list)" by simp
  have b: "rows_ok jazz_on_two [0, 1, 2]" by (simp add: rows_ok_def jazz_on_two_eq)
  have c: "''genre'' \<in> set field_ids" by (simp add: field_ids_def)
  have d: "(2::nat) < length jazz_on_two" by (simp add: jazz_on_two_eq)
  have e: "fits ''genre'' (VString ''Soul'')" by (simp add: fits_def field_ids_def)
  note t = FieldValue_first_entry_and_varies [OF a b c, of example_conversions]
  have "FieldValue jazz_on_two [0, 1, 2] ''genre'' = (VString ''Jazz'', True)"
    using t by (simp add: jazz_on_two_eq current_value_def value_def new_Data_def example_song_def)
  moreover have "FieldValue (SetFieldValue example_conversions [2] ''genre'' (VString ''Soul'') jazz_on_two)
        [2] ''genre'' = (VString ''Soul'', False)"
    using t d e by blast
  ultimately show ?thesis using a b c d e by blast
qed

text \<open>
  Claim C5. After any sequence of field edits, \<open>ResetFieldValue\<close> on a field and a
  selection leaves, in every selected entry, the current value of the field equal to the
  value the original record had from the start; the original records are those of the
  start, and \<open>IsValueModified\<close> for the field over the selection is false.
\<close>

theorem ResetFieldValue_restores_original:
  assumes "rows_ok data sel" and "\<forall>(f, s) \<in> set edits. rows_ok data s"
  shows "let data' = fst (ResetFieldValue qt field sel (apply_edits qt edits data)) in
           (\<forall>i \<in> set sel. fst (current_value (data' ! i) (field_id field))
                            = fst (original_value (data ! i) (field_id field)))
           \<and> map original data' = map original data
           \<and> \<not> fst (IsValueModified data' sel (field_id field))"
proof -
  let ?fid = "field_id field"
  let ?mid = "apply_edits qt edits data"
  let ?res = "fst (ResetFieldValue_loop qt ?fid sel ?mid)"
  have orig: "map original ?res = map original data"
    by (simp add: ResetFieldValue_loop_original apply_edits_original)
  have len: "length ?res = length data"
    by (simp add: ResetFieldValue_loop_length apply_edits_length)
  have nth_orig: "original (?res ! i) = original (data ! i)" if "i < length data" for i
    using orig that len by (metis nth_map)
  have mid_orig: "original (?mid ! i) = original (data ! i)" if "i < length data" for i
    using apply_edits_original [of qt edits data] that apply_edits_length [of qt edits data]
    by (metis nth_map)
  have restored: "fst (current_value (?res ! i) ?fid) = fst (original_value (data ! i) ?fid)"
    if "i \<in> set sel" for i
  proof -
    from that assms(1) have i: "i < length data" by (simp add: rows_ok_def list_all_iff)
    then have "fst (current_value (?res ! i) ?fid) = fst (original_value (?mid ! i) ?fid)"
      using that by (simp add: ResetFieldValue_loop_restores apply_edits_length)
    then show ?thesis using mid_orig [OF i] by (simp add: original_value_def)
  qed
  have unmodified: "\<not> fst (IsValueModified ?res sel ?fid)"
  proof -
    have "fst (original_value (?res ! i) ?fid) = fst (current_value (?res ! i) ?fid)"
      if "i \<in> set sel" for i
    proof -
      from that assms(1) have "i < length data" by (simp add: rows_ok_def list_all_iff)
      then show ?thesis using restored [OF that] nth_orig by (simp add: original_value_def)
    qed
    then show ?thesis by (simp add: IsValueModified_fst)
  qed
  show ?thesis
    using restored orig unmodified by (simp add: ResetFieldValue_fst Let_def)
qed

theorem ResetFieldValue_restores_original_witness:
  "rows_ok three_tracks [0, 1, 2]
   \<and> rows_ok three_tracks [0, 1]
   \<and> (let data' = fst (ResetFieldValue example_conversions
                        \<lparr>field_id = ''genre'', editor = Some (VString ''Jazz'')\<rparr> [0, 1, 2]
                        (apply_edits example_conversions
                           [(\<lparr>field_id = ''genre'', editor = Some (VString ''Jazz'')\<rparr>, [0, 1])]
                           three_tracks))
      in fst (current_value (data' ! 0) ''genre'') = VString ''Rock''
         \<and> \<not> fst (IsValueModified data' [0, 1, 2] ''genre''))"
proof -
  let ?f = "\<lparr>field_id = ''genre'', editor = Some (VString ''Jazz'')\<rparr>"
  have a: "rows_ok three_tracks [0, 1, 2]" by (simp add: rows_ok_def three_tracks_def)
  have b: "\<forall>(f, s) \<in> set [(?f, [0, 1])]. rows_ok three_tracks s"
    by (simp add: rows_ok_def three_tracks_def)
  have o: "fst (original_value (three_tracks ! 0) ''genre'') = VString ''Rock''"
    by (simp add: original_value_def value_def three_tracks_def new_Data_def example_song_def)
  have c: "rows_ok three_tracks [0, 1]" by (simp add: rows_ok_def three_tracks_def)
  show ?thesis
    using ResetFieldValue_restores_original [OF a b, of example_conversions ?f] a c o
    by (simp add: Let_def)
qed

text \<open>
  Claim C6. \<open>set_value\<close> leaves the original record of the entry as it was, for every
  key and value; for an unknown key it returns the entry unchanged and logs the warning.
  The same holds for \<open>UpdateFieldValue\<close> over a selection: no original record of the
  list changes, and with an unknown key the list is unchanged.
\<close>

theorem field_edit_keeps_original:
  "original (fst (set_value qt d fid v)) = original d
   \<and> (fid \<notin> set field_ids \<longrightarrow> set_value qt d fid v = (d, [Log Warning [''Unknown ID'', fid]]))
   \<and> (rows_ok data sel \<longrightarrow>
        map original (fst (UpdateFieldValue qt field sel data)) = map original data
        \<and> (field_id field \<notin> set field_ids \<longrightarrow> fst (UpdateFieldValue qt field sel data) = data))"
  by (simp add: set_value_original set_value_unknown UpdateFieldValue_original
      UpdateFieldValue_unknown)

theorem field_edit_keeps_original_witness:
  "''mood'' \<notin> set field_ids \<and> rows_ok three_tracks [0, 2]
   \<and> set_value example_conversions (three_tracks ! 0) ''mood'' (VString ''calm'')
        = (three_tracks ! 0, [Log Warning [''Unknown ID'', ''mood'']])
   \<and> fst (UpdateFieldValue example_conversions
             \<lparr>field_id = ''mood'', editor = Some (VString ''calm'')\<rparr> [0, 2] three_tracks)
        = three_tracks
   \<and> map original jazz_on_two = map original three_tracks"
proof -
  have a: "''mood'' \<notin> set field_ids" by (simp add: field_ids_def)
  have b: "rows_ok three_tracks [0, 2]" by (simp add: rows_ok_def three_tracks_def)
  have c: "rows_ok three_tracks [0, 1]" by (simp add: rows_ok_def three_tracks_def)
  show ?thesis
    using a b
      field_edit_keeps_original [of example_conversions "three_tracks ! 0" "''mood''"
        "VString ''calm''" three_tracks "[0, 2]" "\<lparr>field_id = ''mood'', editor = Some (VString ''calm'')\<rparr>"]
      field_edit_keeps_original [of example_conversions "three_tracks ! 0" "''mood''"
        "VString ''calm''" three_tracks "[0, 1]" "\<lparr>field_id = ''genre'', editor = Some (VString ''Jazz'')\<rparr>"]
      c
    by (simp add: jazz_on_two_def SetFieldValue_def)
qed

section \<open>Properties of the cover update\<close>

lemma UpdateCoverOf_loop_length:
  "length (UpdateCoverOf_loop eaa selected first u i ds) = length ds"
  by (induction ds arbitrary: i) (auto simp: Let_def)

lemma UpdateCoverOf_loop_nth:
  "j < length ds \<Longrightarrow>
   UpdateCoverOf_loop eaa selected first u i ds ! j =
     (let d = ds ! j;
          d1 = (if i + j \<noteq> first \<and> eaa selected = eaa (original d) \<and> album selected = album (original d)
                then d\<lparr>original := (original d)\<lparr>art_manual := u\<rparr>\<rparr> else d)
      in d1\<lparr>current := (current d1)\<lparr>art_manual := art_manual (original d1)\<rparr>\<rparr>)"
proof (induction ds arbitrary: i j)
  case Nil
  then show ?case by simp
next
  case (Cons d rest)
  show ?case
  proof (cases j)
    case 0
    then show ?thesis by (simp add: Let_def)
  next
    case (Suc k)
    with Cons.prems have "k < length rest" by simp
    from Cons.IH [OF this, of "Suc i"] Suc show ?thesis by (simp add: Let_def)
  qed
qed

lemma UpdateCoverOf_valid:
  "is_valid selected \<Longrightarrow> song_id selected \<noteq> - 1 \<Longrightarrow>
   fst (UpdateCoverOf eaa selected sel u ds) = UpdateCoverOf_loop eaa selected (hd sel) u 0 ds"
  by (simp add: UpdateCoverOf_def)

text \<open>
  Claim C2, amended. When the original record of the first selected entry E is valid and
  has a collection id other than -1, \<open>UpdateCoverOf\<close> with url U sets the manual art of
  the original record of every other entry whose effective album artist and album equal
  those of E's original record to U, leaves the original record of every other entry
  and of E as it was, and then sets every entry's current manual art to the manual art
  of its own original record. No other field of any record changes.

  Without the condition on E the claim fails: \<open>UpdateCoverOf\<close> returns at once for a
  song that is invalid or has collection id -1. In \<open>uncatalogued_pair\<close> both tracks are
  of album X by artist Y and the first has collection id -1; the manual art of the
  second stays as it was.
\<close>

theorem UpdateCoverOf_propagates_to_album:
  assumes "sel \<noteq> []" and "rows_ok ds sel"
    and "is_valid (original (ds ! hd sel))" and "song_id (original (ds ! hd sel)) \<noteq> - 1"
  shows "let E = original (ds ! hd sel);
             ds' = fst (UpdateCoverOf effective_albumartist E sel U ds)
         in length ds' = length ds
            \<and> (\<forall>i < length ds.
                 (if i \<noteq> hd sel
                     \<and> effective_albumartist (original (ds ! i)) = effective_albumartist E
                     \<and> album (original (ds ! i)) = album E
                  then original (ds' ! i) = (original (ds ! i))\<lparr>art_manual := U\<rparr>
                  else original (ds' ! i) = original (ds ! i))
                 \<and> current (ds' ! i)
                     = (current (ds ! i))\<lparr>art_manual := art_manual (original (ds' ! i))\<rparr>)"
proof -
  let ?E = "original (ds ! hd sel)"
  let ?ds' = "UpdateCoverOf_loop effective_albumartist ?E (hd sel) U 0 ds"
  have res: "fst (UpdateCoverOf effective_albumartist ?E sel U ds) = ?ds'"
    using assms(3,4) by (rule UpdateCoverOf_valid)
  have len: "length ?ds' = length ds"
    by (rule UpdateCoverOf_loop_length)
  have row: "(if i \<noteq> hd sel
                 \<and> effective_albumartist (original (ds ! i)) = effective_albumartist ?E
                 \<and> album (original (ds ! i)) = album ?E
              then original (?ds' ! i) = (original (ds ! i))\<lparr>art_manual := U\<rparr>
              else original (?ds' ! i) = original (ds ! i))
             \<and> current (?ds' ! i)
                 = (current (ds ! i))\<lparr>art_manual := art_manual (original (?ds' ! i))\<rparr>"
    if "i < length ds" for i
    using UpdateCoverOf_loop_nth [OF that, of effective_albumartist ?E "hd sel" U 0]
    by (auto simp: Let_def)
  show ?thesis
    unfolding Let_def res using len row by blast
qed

theorem UpdateCoverOf_propagates_to_album_witness:
  "[0] \<noteq> [] \<and> rows_ok three_tracks [0]
   \<and> is_valid (original (three_tracks ! hd [0]))
   \<and> song_id (original (three_tracks ! hd [0])) \<noteq> - 1
   \<and> art_manual (original (fst (UpdateCoverOf example_effective_albumartist
        (original (three_tracks ! hd [0])) [0] example_cover three_tracks) ! 1)) = example_cover
   \<and> art_manual (current (fst (UpdateCoverOf example_effective_albumartist
        (original (three_tracks ! hd [0])) [0] example_cover three_tracks) ! 1)) = example_cover
   \<and> art_manual (original (fst (UpdateCoverOf example_effective_albumartist
        (original (three_tracks ! hd [0])) [0] example_cover three_tracks) ! 2)) = OtherUrl []"
proof -
  have a: "[0] \<noteq> ([]::nat list)" by simp
  have b: "rows_ok three_tracks [0]" by (simp add: rows_ok_def three_tracks_def)
  have c: "is_valid (original (three_tracks ! hd [0]))"
    by (simp add: three_tracks_def new_Data_def example_song_def)
  have d: "song_id (original (three_tracks ! hd [0])) \<noteq> - 1"
    by (simp add: three_tracks_def new_Data_def example_song_def)
  note t = UpdateCoverOf_propagates_to_album
             [OF a b c d, of example_effective_albumartist example_cover, unfolded Let_def]
  let ?ds' = "fst (UpdateCoverOf example_effective_albumartist
        (original (three_tracks ! hd [0])) [0] example_cover three_tracks)"
  have r: "(if i \<noteq> hd [0]
               \<and> example_effective_albumartist (original (three_tracks ! i))
                   = example_effective_albumartist (original (three_tracks ! hd [0]))
               \<and> album (original (three_tracks ! i)) = album (original (three_tracks ! hd [0]))
            then original (?ds' ! i) = (original (three_tracks ! i))\<lparr>art_manual := example_cover\<rparr>
            else original (?ds' ! i) = original (three_tracks ! i))
           \<and> current (?ds' ! i)
               = (current (three_tracks ! i))\<lparr>art_manual := art_manual (original (?ds' ! i))\<rparr>"
    if "i < length three_tracks" for i
    using t that by blast
  have l: "length three_tracks = 3" by (simp add: three_tracks_def)
  have r1: "art_manual (original (?ds' ! 1)) = example_cover"
       "art_manual (current (?ds' ! 1)) = example_cover"
    using r [of 1] l
    by (simp_all add: three_tracks_def new_Data_def example_song_def
        example_effective_albumartist_def)
  have r2: "art_manual (original (?ds' ! 2)) = OtherUrl []"
    using r [of 2] l
    by (simp add: three_tracks_def new_Data_def example_song_def
        example_effective_albumartist_def)
  show ?thesis using a b c d r1 r2 by simp
qed

theorem UpdateCoverOf_uncatalogued_counterexample:
  "example_effective_albumartist (original (uncatalogued_pair ! 1))
     = example_effective_albumartist (original (uncatalogued_pair ! 0))
   \<and> album (original (uncatalogued_pair ! 1)) = album (original (uncatalogued_pair ! 0))
   \<and> art_manual (original (fst (UpdateCoverOf example_effective_albumartist
        (original (uncatalogued_pair ! 0)) [0] example_cover uncatalogued_pair) ! 1))
       \<noteq> example_cover"
  by (simp add: UpdateCoverOf_def uncatalogued_pair_def new_Data_def example_song_def
      example_effective_albumartist_def example_cover_def)

text \<open>
  Claim C9. When the record passed as the selected song is invalid or has collection id
  -1, \<open>UpdateCoverOf\<close> returns the entry list as it was and does nothing else: no
  original or current manual art changes.
\<close>

theorem UpdateCoverOf_guard:
  "\<not> is_valid selected \<or> song_id selected = - 1 \<Longrightarrow>
   UpdateCoverOf effective_albumartist selected sel U ds = (ds, [])"
  by (auto simp: UpdateCoverOf_def)

theorem UpdateCoverOf_guard_witness:
  "song_id (original (uncatalogued_pair ! 0)) = - 1
   \<and> UpdateCoverOf example_effective_albumartist (original (uncatalogued_pair ! 0)) [0]
        example_cover uncatalogued_pair = (uncatalogued_pair, [])"
proof -
  have a: "song_id (original (uncatalogued_pair ! 0)) = - 1"
    by (simp add: uncatalogued_pair_def new_Data_def example_song_def)
  then have "\<not> is_valid (original (uncatalogued_pair ! 0))
      \<or> song_id (original (uncatalogued_pair ! 0)) = - 1" by simp
  from UpdateCoverOf_guard [OF this] a show ?thesis by simp
qed

section \<open>Properties of saving\<close>

lemma SaveData_loop_eq:
  "SaveData_loop meq ds s =
     (s\<lparr>pending := pending s + int (length (modified_entries meq ds))\<rparr>,
      map (\<lambda>d. SaveFile (toLocalFile (url (current d))) (current d)) (modified_entries meq ds))"
  by (induction ds arbitrary: s) (auto simp: modified_entries_def Let_def)

lemma accept_idle:
  assumes "\<not> loading s" and "pending s = 0"
  shows "accept meq s =
    (if modified_entries meq (dialog_data s) = [] then (s, [DialogAccept])
     else (s\<lparr>loading := True, pending := int (length (modified_entries meq (dialog_data s)))\<rparr>,
           map (\<lambda>d. SaveFile (toLocalFile (url (current d))) (current d))
             (modified_entries meq (dialog_data s))))"
  using assms
  by (simp add: accept_def SetLoading_def SaveData_def SaveData_loop_eq AcceptFinished_def Let_def)

lemma completion_effects_Nil: "completion_effects [] = []"
  by (simp add: completion_effects_def)

lemma completion_effects_Cons:
  "completion_effects ((ok, f, sng) # cs) =
     (if \<not> ok then [EmitError (error_message f)]
      else if is_collection_song sng then [AddOrUpdateSongs [sng]] else [])
     @ completion_effects cs"
  by (simp add: completion_effects_def)

lemma complete_all_run:
  assumes "loading t" and "pending t = int n" and "length cs \<le> n" and "0 < n"
  shows "complete_all cs t =
    (if length cs = n then (t\<lparr>loading := False, pending := 0\<rparr>, completion_effects cs @ [DialogAccept])
     else (t\<lparr>pending := int (n - length cs)\<rparr>, completion_effects cs))"
  using assms
proof (induction cs arbitrary: t n)
  case Nil
  then show ?case by (simp add: completion_effects_Nil)
next
  case (Cons c cs)
  obtain ok f sng where c: "c = (ok, f, sng)" by (cases c)
  let ?l = "if \<not> ok then [EmitError (error_message f)]
            else if is_collection_song sng then [AddOrUpdateSongs [sng]] else []"
  show ?case
  proof (cases "n = 1")
    case True
    with Cons.prems have cs: "cs = []" by simp
    have "SongSaveComplete ok f sng t = (t\<lparr>loading := False, pending := 0\<rparr>, ?l @ [DialogAccept])"
      using Cons.prems True
      by (simp add: SongSaveComplete_def AcceptFinished_def SetLoading_def Let_def)
    then show ?thesis
      using True cs c by (simp add: completion_effects_Cons completion_effects_Nil)
  next
    case False
    with Cons.prems obtain m where m: "n = Suc m" "0 < m" by (cases n) auto
    have step: "SongSaveComplete ok f sng t = (t\<lparr>pending := int m\<rparr>, ?l)"
      using Cons.prems m by (simp add: SongSaveComplete_def Let_def)
    have rest: "complete_all cs (t\<lparr>pending := int m\<rparr>) =
      (if length cs = m then (t\<lparr>loading := False, pending := 0\<rparr>, completion_effects cs @ [DialogAccept])
       else (t\<lparr>pending := int (m - length cs)\<rparr>, completion_effects cs))"
      using Cons.IH [of "t\<lparr>pending := int m\<rparr>" m] Cons.prems m by simp
    show ?thesis
      using step rest m c by (simp add: completion_effects_Cons)
  qed
qed

lemma save_requests_append: "save_requests (xs @ ys) = save_requests xs @ save_requests ys"
  by (induction xs rule: save_requests.induct) auto

lemma error_messages_append: "error_messages (xs @ ys) = error_messages xs @ error_messages ys"
  by (induction xs rule: error_messages.induct) auto

lemma upserts_append: "upserts (xs @ ys) = upserts xs @ upserts ys"
  by (induction xs rule: upserts.induct) auto

lemma save_requests_SaveFile:
  "save_requests (map (\<lambda>d. SaveFile (toLocalFile (url (current d))) (current d)) ds)
     = map (\<lambda>d. (toLocalFile (url (current d)), current d)) ds"
  by (induction ds) auto

lemma error_messages_SaveFile:
  "error_messages (map (\<lambda>d. SaveFile (toLocalFile (url (current d))) (current d)) ds) = []"
  by (induction ds) auto

lemma upserts_SaveFile:
  "upserts (map (\<lambda>d. SaveFile (toLocalFile (url (current d))) (current d)) ds) = []"
  by (induction ds) auto

lemma DialogAccept_notin_SaveFile:
  "DialogAccept \<notin> set (map (\<lambda>d. SaveFile (toLocalFile (url (current d))) (current d)) ds)"
  by auto

lemma save_requests_completion_effects: "save_requests (completion_effects cs) = []"
  by (induction cs) (auto simp: completion_effects_Nil completion_effects_Cons)

lemma DialogAccept_notin_completion_effects: "DialogAccept \<notin> set (completion_effects cs)"
  by (induction cs) (auto simp: completion_effects_Nil completion_effects_Cons split: if_splits)

lemma error_messages_completion_effects:
  "error_messages (completion_effects cs)
     = map (\<lambda>c. error_message (fst (snd c))) (filter (\<lambda>c. \<not> fst c) cs)"
  by (induction cs) (auto simp: completion_effects_Nil completion_effects_Cons)

lemma upserts_completion_effects:
  "upserts (completion_effects cs)
     = map (\<lambda>c. snd (snd c)) (filter (\<lambda>c. fst c \<and> is_collection_song (snd (snd c))) cs)"
  by (induction cs) (auto simp: completion_effects_Nil completion_effects_Cons)

lemma commit_effects:
  assumes "\<not> loading s" and "pending s = 0"
    and "length cs \<le> length (modified_entries meq (dialog_data s))"
  shows "snd (accept meq s) @ snd (complete_all cs (fst (accept meq s))) =
     map (\<lambda>d. SaveFile (toLocalFile (url (current d))) (current d)) (modified_entries meq (dialog_data s))
     @ completion_effects cs
     @ (if length cs = length (modified_entries meq (dialog_data s)) then [DialogAccept] else [])"
proof (cases "modified_entries meq (dialog_data s) = []")
  case True
  with assms show ?thesis by (simp add: accept_idle completion_effects_Nil)
next
  case False
  let ?K = "length (modified_entries meq (dialog_data s))"
  let ?t = "s\<lparr>loading := True, pending := int ?K\<rparr>"
  have acc: "accept meq s =
      (?t, map (\<lambda>d. SaveFile (toLocalFile (url (current d))) (current d)) (modified_entries meq (dialog_data s)))"
    using assms False by (simp add: accept_idle)
  have "complete_all cs ?t =
    (if length cs = ?K then (?t\<lparr>loading := False, pending := 0\<rparr>, completion_effects cs @ [DialogAccept])
     else (?t\<lparr>pending := int (?K - length cs)\<rparr>, completion_effects cs))"
    using assms(3) False by (intro complete_all_run) simp_all
  with acc show ?thesis by simp
qed


lemma example_dialog_modified:
  "modified_entries example_IsMetadataEqual (dialog_data example_dialog) =
     [\<lparr>original = example_song ''/m/1.flac'' ''Y'' ''X'' 1, current = jazz_1\<rparr>,
      \<lparr>original = example_song ''/m/2.flac'' ''Y'' ''X'' 2, current = jazz_2\<rparr>]"
  by (simp add: modified_entries_def example_dialog_def jazz_on_two_eq jazz_1_def jazz_2_def
      example_IsMetadataEqual_def new_Data_def example_song_def)

lemma jazz_paths:
  "toLocalFile (url jazz_1) = ''/m/1.flac''" "toLocalFile (url jazz_2) = ''/m/2.flac''"
  "is_collection_song jazz_1" "is_collection_song jazz_2"
  by (simp_all add: jazz_1_def jazz_2_def example_song_def)

lemma example_dialog_idle: "\<not> loading example_dialog" "pending example_dialog = 0"
  by (simp_all add: example_dialog_def)

lemma count_list_0: "x \<notin> set xs \<Longrightarrow> count_list xs x = 0"
  by (induction xs) auto

text \<open>
  After the last completion the dialog is as it was before \<open>accept\<close>: not busy, with
  no write pending.
\<close>

lemma commit_returns_to_idle:
  assumes "\<not> loading s" and "pending s = 0"
    and "length cs = length (modified_entries meq (dialog_data s))"
  shows "fst (complete_all cs (fst (accept meq s))) = s"
proof (cases "modified_entries meq (dialog_data s) = []")
  case True
  with assms show ?thesis by (simp add: accept_idle)
next
  case False
  let ?K = "length (modified_entries meq (dialog_data s))"
  let ?t = "s\<lparr>loading := True, pending := int ?K\<rparr>"
  have "fst (accept meq s) = ?t"
    using assms(1,2) False by (simp add: accept_idle)
  moreover have "complete_all cs ?t =
      (?t\<lparr>loading := False, pending := 0\<rparr>, completion_effects cs @ [DialogAccept])"
    using complete_all_run [of ?t ?K cs] assms(3) False by simp
  moreover have "?t\<lparr>loading := False, pending := 0\<rparr> = s"
    using assms(1,2) by (cases s) simp
  ultimately show ?thesis by simp
qed

text \<open>
  Claim C1. From a dialog that is not busy, \<open>accept\<close> issues one write request for each
  entry whose current record is not metadata-equal to its original, with the entry's
  file path and current record, and no other write request: K requests for K such
  entries. With K = 0 it accepts the dialog at once. Otherwise the dialog is not accepted
  while fewer than K completions have arrived, whatever their outcomes, and after the
  K-th completion it has been accepted exactly once, as the last effect, with no further
  write request issued.
\<close>

theorem Commit_writes_each_modified_entry_and_completes_once:
  assumes "\<not> loading s" and "pending s = 0"
  shows "let entries = modified_entries IsMetadataEqual (dialog_data s);
             s1 = fst (accept IsMetadataEqual s);
             l1 = snd (accept IsMetadataEqual s)
         in save_requests l1 = map (\<lambda>d. (toLocalFile (url (current d)), current d)) entries
            \<and> length (save_requests l1) = length entries
            \<and> (entries = [] \<longrightarrow> l1 = [DialogAccept])
            \<and> (\<forall>cs. length cs < length entries \<longrightarrow>
                  count_list (l1 @ snd (complete_all cs s1)) DialogAccept = 0)
            \<and> (\<forall>cs. length cs = length entries \<longrightarrow>
                  count_list (l1 @ snd (complete_all cs s1)) DialogAccept = 1
                  \<and> last (l1 @ snd (complete_all cs s1)) = DialogAccept
                  \<and> save_requests (snd (complete_all cs s1)) = [])"
proof -
  let ?entries = "modified_entries IsMetadataEqual (dialog_data s)"
  let ?saves = "map (\<lambda>d. SaveFile (toLocalFile (url (current d))) (current d)) ?entries"
  let ?s1 = "fst (accept IsMetadataEqual s)"
  let ?l1 = "snd (accept IsMetadataEqual s)"
  have l1: "?l1 = ?saves @ (if ?entries = [] then [DialogAccept] else [])"
    using commit_effects [OF assms, of "[]" IsMetadataEqual] by (simp add: completion_effects_Nil)
  have reqs: "save_requests ?l1 = map (\<lambda>d. (toLocalFile (url (current d)), current d)) ?entries"
    by (simp add: l1 save_requests_append save_requests_SaveFile)
  have none: "?entries = [] \<longrightarrow> ?l1 = [DialogAccept]"
    by (simp add: l1)
  have before: "count_list (?l1 @ snd (complete_all cs ?s1)) DialogAccept = 0"
    if "length cs < length ?entries" for cs
  proof -
    have eq: "?l1 @ snd (complete_all cs ?s1) = ?saves @ completion_effects cs"
      using commit_effects [OF assms, of cs IsMetadataEqual] that by simp
    have "DialogAccept \<notin> set (?saves @ completion_effects cs)"
      using DialogAccept_notin_completion_effects [of cs] by auto
    then have "count_list (?saves @ completion_effects cs) DialogAccept = 0"
      by (rule count_list_0)
    then show ?thesis unfolding eq .
  qed
  have after: "count_list (?l1 @ snd (complete_all cs ?s1)) DialogAccept = 1
      \<and> last (?l1 @ snd (complete_all cs ?s1)) = DialogAccept
      \<and> save_requests (snd (complete_all cs ?s1)) = []"
    if "length cs = length ?entries" for cs
  proof -
    have all: "?l1 @ snd (complete_all cs ?s1) = (?saves @ completion_effects cs) @ [DialogAccept]"
      using commit_effects [OF assms, of cs IsMetadataEqual] that by simp
    have "DialogAccept \<notin> set (?saves @ completion_effects cs)"
      using DialogAccept_notin_completion_effects [of cs] by auto
    then have "count_list (?saves @ completion_effects cs) DialogAccept = 0"
      by (rule count_list_0)
    then have one: "count_list (?l1 @ snd (complete_all cs ?s1)) DialogAccept = 1"
      by (simp only: all count_list_append) simp
    have "save_requests (?l1 @ snd (complete_all cs ?s1)) = save_requests ?l1"
      by (simp only: all reqs)
         (simp add: save_requests_append save_requests_SaveFile save_requests_completion_effects)
    then have "save_requests (snd (complete_all cs ?s1)) = []"
      by (simp add: save_requests_append)
    with one all show ?thesis by simp
  qed
  show ?thesis
    unfolding Let_def using reqs none before after by simp
qed

theorem Commit_writes_each_modified_entry_and_completes_once_witness:
  "\<not> loading example_dialog \<and> pending example_dialog = 0
   \<and> save_requests (snd (accept example_IsMetadataEqual example_dialog))
       = [(''/m/1.flac'', jazz_1), (''/m/2.flac'', jazz_2)]
   \<and> count_list (snd (accept example_IsMetadataEqual example_dialog)
        @ snd (complete_all [(True, ''/m/2.flac'', jazz_2)]
                 (fst (accept example_IsMetadataEqual example_dialog)))) DialogAccept = 0
   \<and> count_list (snd (accept example_IsMetadataEqual example_dialog)
        @ snd (complete_all [(True, ''/m/2.flac'', jazz_2), (False, ''/m/1.flac'', jazz_1)]
                 (fst (accept example_IsMetadataEqual example_dialog)))) DialogAccept = 1"
proof -
  note t = Commit_writes_each_modified_entry_and_completes_once
             [OF example_dialog_idle, of example_IsMetadataEqual, unfolded Let_def]
  let ?E = "modified_entries example_IsMetadataEqual (dialog_data example_dialog)"
  let ?run = "\<lambda>cs. snd (accept example_IsMetadataEqual example_dialog)
        @ snd (complete_all cs (fst (accept example_IsMetadataEqual example_dialog)))"
  have a: "save_requests (snd (accept example_IsMetadataEqual example_dialog))
       = [(''/m/1.flac'', jazz_1), (''/m/2.flac'', jazz_2)]"
    using t by (simp add: example_dialog_modified jazz_paths)
  have b0: "count_list (?run cs) DialogAccept = 0" if "length cs < length ?E" for cs
    using t that by blast
  have c0: "count_list (?run cs) DialogAccept = 1" if "length cs = length ?E" for cs
    using t that by blast
  have b: "count_list (?run [(True, ''/m/2.flac'', jazz_2)]) DialogAccept = 0"
    by (rule b0) (simp add: example_dialog_modified)
  have c: "count_list (?run [(True, ''/m/2.flac'', jazz_2), (False, ''/m/1.flac'', jazz_1)])
             DialogAccept = 1"
    by (rule c0) (simp add: example_dialog_modified)
  show ?thesis using a b c example_dialog_idle by simp
qed


lemma SongSaveComplete_failure_first:
  "hd (snd (SongSaveComplete False filename song t)) = EmitError (error_message filename)"
  by (simp add: SongSaveComplete_def Let_def split_def)

text \<open>
  Claim C7, amended. A failed write is per file and does not stop the commit: all write
  requests are issued by \<open>accept\<close> before any completion is handled, and once every
  request has completed, in any order and with any outcomes, the dialog is accepted, as
  the last effect. Every successful write of a collection song is passed to the
  collection backend. For every failed write one error message naming that file is
  emitted, as the first effect of handling that completion, hence before the commit
  completes; the messages emitted over the commit name exactly the failed files.

  The claim places the message after the whole commit. In \<open>example_dialog\<close> two writes
  are issued; when the first completion reports a failure its message is emitted while
  one write is still pending and the dialog has not been accepted.
\<close>

theorem Commit_reports_each_failed_write_when_it_completes:
  assumes "\<not> loading s" and "pending s = 0"
    and "mset (map snd cs) = mset (save_requests (snd (accept IsMetadataEqual s)))"
  shows "let l = snd (accept IsMetadataEqual s)
                 @ snd (complete_all cs (fst (accept IsMetadataEqual s)))
         in save_requests l = map (\<lambda>d. (toLocalFile (url (current d)), current d))
                                (modified_entries IsMetadataEqual (dialog_data s))
            \<and> error_messages l = map (\<lambda>c. error_message (fst (snd c))) (filter (\<lambda>c. \<not> fst c) cs)
            \<and> upserts l = map (\<lambda>c. snd (snd c))
                             (filter (\<lambda>c. fst c \<and> is_collection_song (snd (snd c))) cs)
            \<and> last l = DialogAccept \<and> count_list l DialogAccept = 1
            \<and> hd (snd (SongSaveComplete False filename song t))
                 = EmitError (error_message filename)"
proof -
  let ?entries = "modified_entries IsMetadataEqual (dialog_data s)"
  let ?saves = "map (\<lambda>d. SaveFile (toLocalFile (url (current d))) (current d)) ?entries"
  let ?l = "snd (accept IsMetadataEqual s) @ snd (complete_all cs (fst (accept IsMetadataEqual s)))"
  have l1: "snd (accept IsMetadataEqual s) = ?saves @ (if ?entries = [] then [DialogAccept] else [])"
    using commit_effects [OF assms(1,2), of "[]" IsMetadataEqual]
    by (simp add: completion_effects_Nil)
  have "save_requests (snd (accept IsMetadataEqual s))
          = map (\<lambda>d. (toLocalFile (url (current d)), current d)) ?entries"
    by (simp add: l1 save_requests_append save_requests_SaveFile)
  with assms(3) have "size (mset (map snd cs)) = length ?entries"
    by simp
  then have len: "length cs = length ?entries"
    by simp
  have all: "?l = (?saves @ completion_effects cs) @ [DialogAccept]"
    using commit_effects [OF assms(1,2), of cs IsMetadataEqual] len by simp
  have notin: "DialogAccept \<notin> set (?saves @ completion_effects cs)"
    using DialogAccept_notin_completion_effects [of cs] by auto
  have "count_list (?saves @ completion_effects cs) DialogAccept = 0"
    using notin by (rule count_list_0)
  then have one: "count_list ?l DialogAccept = 1"
    by (simp only: all count_list_append) simp
  have reqs: "save_requests ?l = map (\<lambda>d. (toLocalFile (url (current d)), current d)) ?entries"
    by (simp only: all)
       (simp add: save_requests_append save_requests_SaveFile save_requests_completion_effects)
  have errs: "error_messages ?l
      = map (\<lambda>c. error_message (fst (snd c))) (filter (\<lambda>c. \<not> fst c) cs)"
    by (simp only: all)
       (simp add: error_messages_append error_messages_SaveFile error_messages_completion_effects)
  have ups: "upserts ?l
      = map (\<lambda>c. snd (snd c)) (filter (\<lambda>c. fst c \<and> is_collection_song (snd (snd c))) cs)"
    by (simp only: all)
       (simp add: upserts_append upserts_SaveFile upserts_completion_effects)
  have lst: "last ?l = DialogAccept"
    by (simp only: all) simp
  show ?thesis
    unfolding Let_def using reqs errs ups lst one SongSaveComplete_failure_first by blast
qed

lemma accept_example_dialog:
  "accept example_IsMetadataEqual example_dialog =
     (example_dialog\<lparr>loading := True, pending := 2\<rparr>,
      [SaveFile ''/m/1.flac'' jazz_1, SaveFile ''/m/2.flac'' jazz_2])"
  by (simp add: accept_idle example_dialog_idle example_dialog_modified jazz_paths)

theorem Commit_reports_each_failed_write_when_it_completes_witness:
  "\<not> loading example_dialog \<and> pending example_dialog = 0
   \<and> mset (map snd [(True, ''/m/2.flac'', jazz_2), (False, ''/m/1.flac'', jazz_1)])
       = mset (save_requests (snd (accept example_IsMetadataEqual example_dialog)))
   \<and> error_messages (snd (accept example_IsMetadataEqual example_dialog)
        @ snd (complete_all [(True, ''/m/2.flac'', jazz_2), (False, ''/m/1.flac'', jazz_1)]
                 (fst (accept example_IsMetadataEqual example_dialog))))
       = [error_message ''/m/1.flac'']
   \<and> upserts (snd (accept example_IsMetadataEqual example_dialog)
        @ snd (complete_all [(True, ''/m/2.flac'', jazz_2), (False, ''/m/1.flac'', jazz_1)]
                 (fst (accept example_IsMetadataEqual example_dialog))))
       = [jazz_2]"
proof -
  let ?cs = "[(True, ''/m/2.flac'', jazz_2), (False, ''/m/1.flac'', jazz_1)]"
  have m: "mset (map snd ?cs)
       = mset (save_requests (snd (accept example_IsMetadataEqual example_dialog)))"
    by (simp add: accept_example_dialog)
  note t = Commit_reports_each_failed_write_when_it_completes
             [OF example_dialog_idle m, unfolded Let_def]
  have e: "error_messages (snd (accept example_IsMetadataEqual example_dialog)
        @ snd (complete_all ?cs (fst (accept example_IsMetadataEqual example_dialog))))
       = [error_message ''/m/1.flac'']"
    using t by simp
  have u: "upserts (snd (accept example_IsMetadataEqual example_dialog)
        @ snd (complete_all ?cs (fst (accept example_IsMetadataEqual example_dialog))))
       = [jazz_2]"
    using t by (simp add: jazz_paths)
  show ?thesis using example_dialog_idle m e u by simp
qed

theorem write_error_is_emitted_before_commit_completes:
  "error_messages (snd (SongSaveComplete False ''/m/1.flac'' jazz_1
       (fst (accept example_IsMetadataEqual example_dialog)))) = [error_message ''/m/1.flac'']
   \<and> pending (fst (SongSaveComplete False ''/m/1.flac'' jazz_1
       (fst (accept example_IsMetadataEqual example_dialog)))) = 1
   \<and> loading (fst (SongSaveComplete False ''/m/1.flac'' jazz_1
       (fst (accept example_IsMetadataEqual example_dialog))))
   \<and> count_list (snd (accept example_IsMetadataEqual example_dialog)
        @ snd (SongSaveComplete False ''/m/1.flac'' jazz_1
           (fst (accept example_IsMetadataEqual example_dialog)))) DialogAccept = 0"
  by (simp add: accept_example_dialog SongSaveComplete_def Let_def)

section \<open>Properties of the cover provider\<close>

lemma delivered_append: "delivered (xs @ ys) = delivered xs @ delivered ys"
  by (induction xs rule: delivered.induct) auto

lemma GetReplyData_delivers_nothing: "delivered (snd (snd (GetReplyData env content s))) = []"
  by (simp add: GetReplyData_def Let_def split_def)

lemma search_item_error:
  "search_item env i v = Inl e \<Longrightarrow> delivered (e # l) = delivered l"
  by (auto simp: search_item_def Let_def split: if_splits)

lemma search_items_deliver_nothing: "delivered (snd (search_items env i items)) = []"
  by (induction items arbitrary: i)
     (auto simp: split_def Let_def search_item_error split: sum.splits)

lemma HandleSearchReply_delivers_once:
  assumes "reply \<in> set (replies s)"
  shows "\<exists>results. delivered (snd (HandleSearchReply env reply content search_id s))
                      = [(search_id, results)]"
  using assms
  by (simp add: HandleSearchReply_def Let_def split_def delivered_append
      GetReplyData_delivers_nothing search_items_deliver_nothing)

lemma StartSearch_example:
  "search_started =
     \<lparr>service = Some \<lparr>authenticated = True, country_code = ''US'', access_token = ''token''\<rparr>,
      replies = [0], connections = [(0, 7)], next_reply = 1\<rparr>"
  by (simp add: search_started_def StartSearch_def example_provider_def Let_def)

text \<open>
  Claim C8, amended. \<open>CancelSearch\<close> leaves the provider as it is and does nothing: the
  request of the search stays registered and connected. When the reply of a registered
  request arrives after the cancellation, exactly one \<open>SearchFinished\<close> with the search
  id of the request is emitted, so a result for a cancelled search id is still
  delivered; discarding it is left to the receiver.

  The claim says that no result is delivered after the cancellation. In
  \<open>search_cancelled\<close> the search with id 7 has been started and cancelled; the reply
  that then arrives is parsed and its three results are delivered under id 7.
\<close>

theorem CancelSearch_cancels_nothing:
  "CancelSearch search_id s = (s, [])
   \<and> (reply \<in> set (replies s) \<and> map_of (connections s) reply = Some search_id \<longrightarrow>
        (\<exists>results.
           delivered (snd (reply_finished env reply content (fst (CancelSearch search_id s))))
             = [(search_id, results)]))"
proof -
  have "\<exists>results. delivered (snd (reply_finished env reply content s)) = [(search_id, results)]"
    if "reply \<in> set (replies s)" and "map_of (connections s) reply = Some search_id"
    using that HandleSearchReply_delivers_once [of reply s env content search_id]
    by (simp add: reply_finished_def)
  then show ?thesis by (simp add: CancelSearch_def)
qed

theorem CancelSearch_cancels_nothing_witness:
  "(0::nat) \<in> set (replies search_started) \<and> map_of (connections search_started) 0 = Some 7
   \<and> CancelSearch 7 search_started = (search_started, [])
   \<and> length (delivered (snd (reply_finished example_env 0 example_reply
        (fst (CancelSearch 7 search_started))))) = 1"
proof -
  have a: "(0::nat) \<in> set (replies search_started)" by (simp add: StartSearch_example)
  have b: "map_of (connections search_started) 0 = Some 7" by (simp add: StartSearch_example)
  from CancelSearch_cancels_nothing [of 7 search_started 0 example_env example_reply] a b
  have "CancelSearch 7 search_started = (search_started, [])"
    and "\<exists>results. delivered (snd (reply_finished example_env 0 example_reply
        (fst (CancelSearch 7 search_started)))) = [(7, results)]"
    by blast+
  then show ?thesis using a b by auto
qed

theorem cancelled_search_still_delivers_result:
  "delivered (snd (reply_finished example_env 0 example_reply search_cancelled)) =
     [(7, [\<lparr>result_artist = ''Y'', result_album = ''X'', number = 1,
             image_url = ''https://resources.tidal.com/images/ab/cd/1280x1280.jpg'',
             image_size = (1280, 1280)\<rparr>,
           \<lparr>result_artist = ''Y'', result_album = ''X'', number = 1,
             image_url = ''https://resources.tidal.com/images/ab/cd/750x750.jpg'',
             image_size = (750, 750)\<rparr>,
           \<lparr>result_artist = ''Y'', result_album = ''X'', number = 1,
             image_url = ''https://resources.tidal.com/images/ab/cd/640x640.jpg'',
             image_size = (640, 640)\<rparr>])]"
  by (simp add: search_cancelled_def CancelSearch_def StartSearch_example reply_finished_def
      HandleSearchReply_def GetReplyData_def example_reply_def example_env_def example_items_def
      example_body_def
      contains_def json_value_def isArray_def toArray_def isObject_def toObject_def
      json_toString_def search_item_def cover_sizes_def Let_def)

text \<open>
  Claim C10. \<open>StartSearch\<close> returns false, sends no request and leaves the provider as
  it is when there is no service, when the service is not authenticated, or when
  artist, album and title are all empty. Otherwise it returns true and sends exactly
  one request, which it registers; the request goes to the track search when the album
  is empty and the title is not, and to the album search in every other case.
\<close>

theorem StartSearch_guards_and_resource:
  "(service s = None \<or> (\<exists>svc. service s = Some svc \<and> \<not> authenticated svc)
      \<or> (artist' = [] \<and> album' = [] \<and> title' = [])
    \<longrightarrow> StartSearch env artist' album' title' search_id s = (False, s, []))
   \<and> ((\<exists>svc. service s = Some svc \<and> authenticated svc)
        \<and> \<not> (artist' = [] \<and> album' = [] \<and> title' = [])
    \<longrightarrow> (\<exists>req. StartSearch env artist' album' title' search_id s =
                 (True,
                  s\<lparr>replies := replies s @ [next_reply s],
                    connections := connections s @ [(next_reply s, search_id)],
                    next_reply := Suc (next_reply s)\<rparr>,
                  [Get (next_reply s) req])
               \<and> req_url req = kApiUrl env @ ''/''
                   @ (if album' = [] \<and> title' \<noteq> [] then ''search/tracks''
                      else ''search/albums'')))"
  by (auto simp: StartSearch_def Let_def split: option.splits)

theorem StartSearch_guards_and_resource_witness:
  "fst (StartSearch example_env [] [] [] 7 example_provider) = False
   \<and> requests_sent (snd (snd (StartSearch example_env [] [] [] 7 example_provider))) = []
   \<and> fst (StartSearch example_env ''Y'' [] ''T'' 8 example_provider) = True
   \<and> map (\<lambda>(r, req). req_url req)
       (requests_sent (snd (snd (StartSearch example_env ''Y'' [] ''T'' 8 example_provider))))
       = [''https://api.tidalhifi.com/v1/search/tracks'']
   \<and> map (\<lambda>(r, req). req_url req)
       (requests_sent (snd (snd (StartSearch example_env ''Y'' ''X'' ''T'' 9 example_provider))))
       = [''https://api.tidalhifi.com/v1/search/albums'']"
proof -
  have svc: "\<exists>svc. service example_provider = Some svc \<and> authenticated svc"
    by (simp add: example_provider_def)
  have api: "kApiUrl example_env = ''https://api.tidalhifi.com/v1''"
    by (simp add: example_env_def)
  have a: "StartSearch example_env [] [] [] 7 example_provider = (False, example_provider, [])"
    using StartSearch_guards_and_resource [of example_provider "[]" "[]" "[]" example_env 7]
    by simp
  obtain req1 where b:
    "StartSearch example_env ''Y'' [] ''T'' 8 example_provider =
       (True,
        example_provider\<lparr>replies := replies example_provider @ [next_reply example_provider],
          connections := connections example_provider @ [(next_reply example_provider, 8)],
          next_reply := Suc (next_reply example_provider)\<rparr>,
        [Get (next_reply example_provider) req1])"
    "req_url req1 = ''https://api.tidalhifi.com/v1/search/tracks''"
    using StartSearch_guards_and_resource [of example_provider "''Y''" "[]" "''T''" example_env 8]
      svc api by auto
  obtain req2 where c:
    "StartSearch example_env ''Y'' ''X'' ''T'' 9 example_provider =
       (True,
        example_provider\<lparr>replies := replies example_provider @ [next_reply example_provider],
          connections := connections example_provider @ [(next_reply example_provider, 9)],
          next_reply := Suc (next_reply example_provider)\<rparr>,
        [Get (next_reply example_provider) req2])"
    "req_url req2 = ''https://api.tidalhifi.com/v1/search/albums''"
    using StartSearch_guards_and_resource [of example_provider "''Y''" "''X''" "''T''" example_env 9]
      svc api by auto
  show ?thesis using a b c by simp
qed

end
